theory Spec2Isabelle
  imports Main
begin

section \<open>Characters and strings of the C library\<close>

text \<open>
  The source works on \<open>std::string\<close> and \<open>char\<close>. A string is a list of bytes; the
  character tests are those of \<open>cctype\<close> in the C locale.
\<close>

definition isascii :: "char \<Rightarrow> bool" where
  "isascii c \<longleftrightarrow> (of_char c :: nat) < 128"

definition isblank :: "char \<Rightarrow> bool" where
  "isblank c \<longleftrightarrow> c = CHR '' '' \<or> c = CHR 0x09"

definition isspace :: "char \<Rightarrow> bool" where
  "isspace c \<longleftrightarrow>
     c = CHR '' '' \<or> c = CHR 0x09 \<or> c = CHR 0x0A \<or> c = CHR 0x0B \<or> c = CHR 0x0C \<or> c = CHR 0x0D"

text \<open>\<open>std::string::ends_with(char)\<close>: false on the empty string.\<close>

definition ends_with :: "string \<Rightarrow> char \<Rightarrow> bool" where
  "ends_with s c \<longleftrightarrow> s \<noteq> [] \<and> last s = c"

text \<open>
  \<open>s.find_first_not_of(" \f\n\r\t\v") != std::string::npos\<close>: some character of \<open>s\<close>
  is outside the given set.
\<close>

definition blank_set :: "char list" where
  "blank_set = [CHR '' '', CHR 0x0C, CHR 0x0A, CHR 0x0D, CHR 0x09, CHR 0x0B]"

definition has_non_blank :: "string \<Rightarrow> bool" where
  "has_non_blank s \<longleftrightarrow> list_ex (\<lambda>c. c \<notin> set blank_set) s"

text \<open>
  A \<open>char *\<close> buffer handed to \<open>std::string(const char *)\<close> is read up to its first
  NUL byte.
\<close>

definition c_str :: "string \<Rightarrow> string" where
  "c_str buffer = takeWhile (\<lambda>c. c \<noteq> CHR 0x00) buffer"


section \<open>The language definition (\<open>PatternLanguage()\<close>)\<close>

datatype PaletteIndex =
    PI_Default
  | PI_Keyword
  | PI_Number
  | PI_String
  | PI_CharLiteral
  | PI_Identifier
  | PI_BuiltinType
  | PI_Comment
  | PI_Preprocessor
  | PI_ErrorMarker
  | PI_Background
  | PI_Max

definition pl_keywords :: "string list" where
  "pl_keywords =
     [''using'', ''struct'', ''union'', ''enum'', ''bitfield'', ''be'', ''le'', ''if'', ''else'',
      ''false'', ''true'', ''this'', ''parent'', ''addressof'', ''sizeof'', ''$'', ''while'',
      ''fn'', ''return'', ''namespace'']"

definition builtInTypes :: "string list" where
  "builtInTypes =
     [''u8'', ''u16'', ''u32'', ''u64'', ''u128'',
      ''s8'', ''s16'', ''s32'', ''s64'', ''s128'',
      ''float'', ''double'', ''char'', ''char16'',
      ''bool'', ''padding'', ''str'']"

text \<open>
  \<open>langDef.mKeywords\<close> is the set of the keywords; \<open>langDef.mIdentifiers\<close> maps each
  built-in type name to an identifier record whose declaration is "Built-in type".
\<close>

definition mKeywords :: "string set" where
  "mKeywords = set pl_keywords"

definition mIdentifiers :: "(string \<times> string) list" where
  "mIdentifiers = map (\<lambda>name. (name, ''Built-in type'')) builtInTypes"

text \<open>
  The four C-style tokenizers (\<open>TokenizeCStyleIdentifier\<close>, \<open>TokenizeCStyleNumber\<close>,
  \<open>TokenizeCStyleCharacterLiteral\<close>, \<open>TokenizeCStyleString\<close>) belong to the text editor
  widget and are parameters here. Each one receives the text from \<open>inBegin\<close> to \<open>inEnd\<close>
  and either fails or yields \<open>outBegin\<close> and \<open>outEnd\<close> as offsets from \<open>inBegin\<close>.
\<close>

record CStyleTokenizers =
  TokenizeCStyleIdentifier :: "string \<Rightarrow> (nat \<times> nat) option"
  TokenizeCStyleNumber :: "string \<Rightarrow> (nat \<times> nat) option"
  TokenizeCStyleCharacterLiteral :: "string \<Rightarrow> (nat \<times> nat) option"
  TokenizeCStyleString :: "string \<Rightarrow> (nat \<times> nat) option"

text \<open>
  \<open>langDef.mTokenize\<close>. The result \<open>None\<close> is the return value \<open>false\<close> (palette index
  still \<open>Max\<close>); \<open>Some (outBegin, outEnd, paletteIndex)\<close> gives the offsets from the
  original \<open>inBegin\<close>.
\<close>

definition skip_blanks :: "string \<Rightarrow> nat" where
  "skip_blanks input = length (takeWhile (\<lambda>c. isascii c \<and> isblank c) input)"

definition mTokenize :: "CStyleTokenizers \<Rightarrow> string \<Rightarrow> (nat \<times> nat \<times> PaletteIndex) option" where
  "mTokenize T input =
     (let n = skip_blanks input; rest = drop n input in
      if rest = [] then Some (length input, length input, PI_Default)
      else case TokenizeCStyleIdentifier T rest of
        Some (b, e) \<Rightarrow> Some (n + b, n + e, PI_Identifier)
      | None \<Rightarrow>
      (case TokenizeCStyleNumber T rest of
        Some (b, e) \<Rightarrow> Some (n + b, n + e, PI_Number)
      | None \<Rightarrow>
      (case TokenizeCStyleCharacterLiteral T rest of
        Some (b, e) \<Rightarrow> Some (n + b, n + e, PI_CharLiteral)
      | None \<Rightarrow>
      (case TokenizeCStyleString T rest of
        Some (b, e) \<Rightarrow> Some (n + b, n + e, PI_String)
      | None \<Rightarrow> None))))"

record Token =
  span_begin :: nat
  span_end :: nat
  category :: PaletteIndex
  decl :: "string option"

text \<open>
  Modelled from the spec: the editor widget's lookup of an identifier token in the
  language definition's tables is not among the sources. The spec (4.1, step 2) has it:
  an identifier in the keyword set is a Keyword; else one in the built-in-type set is a
  BuiltinType and carries the attached description; else it stays an Identifier.
\<close>

definition classify_identifier :: "string \<Rightarrow> PaletteIndex \<times> string option" where
  "classify_identifier ident =
     (if ident \<in> mKeywords then (PI_Keyword, None)
      else case map_of mIdentifiers ident of
        Some d \<Rightarrow> (PI_BuiltinType, Some d)
      | None \<Rightarrow> (PI_Identifier, None))"

definition substring :: "string \<Rightarrow> nat \<Rightarrow> nat \<Rightarrow> string" where
  "substring s b e = take (e - b) (drop b s)"

definition classify :: "CStyleTokenizers \<Rightarrow> string \<Rightarrow> Token option" where
  "classify T input =
     (case mTokenize T input of
        None \<Rightarrow> None
      | Some (b, e, idx) \<Rightarrow>
          if idx = PI_Identifier then
            (let (cat, d) = classify_identifier (substring input b e)
             in Some \<lparr>span_begin = b, span_end = e, category = cat, decl = d\<rparr>)
          else Some \<lparr>span_begin = b, span_end = e, category = idx, decl = None\<rparr>)"

text \<open>
  Modelled from the spec: a C-style identifier is a letter or underscore followed by
  letters, digits and underscores (4.1, step 2). It instantiates the identifier
  tokenizer where a concrete one is needed.
\<close>

definition isalpha :: "char \<Rightarrow> bool" where
  "isalpha c \<longleftrightarrow>
     (let k = (of_char c :: nat) in (65 \<le> k \<and> k \<le> 90) \<or> (97 \<le> k \<and> k \<le> 122))"

definition isdigit :: "char \<Rightarrow> bool" where
  "isdigit c \<longleftrightarrow> (let k = (of_char c :: nat) in 48 \<le> k \<and> k \<le> 57)"

definition ident_start :: "char \<Rightarrow> bool" where
  "ident_start c \<longleftrightarrow> isalpha c \<or> c = CHR ''_''"

definition ident_char :: "char \<Rightarrow> bool" where
  "ident_char c \<longleftrightarrow> isalpha c \<or> isdigit c \<or> c = CHR ''_''"

definition c_identifier :: "string \<Rightarrow> (nat \<times> nat) option" where
  "c_identifier s =
     (case s of
        [] \<Rightarrow> None
      | c # cs \<Rightarrow> if ident_start c then Some (0, Suc (length (takeWhile ident_char cs))) else None)"

text \<open>
  Modelled from the spec: a C-style number, reduced to a run of decimal digits, and
  character and string literals, reduced to a quoted run without the quote or a
  backslash. They only instantiate the tokenizer parameters in concrete examples.
\<close>

definition c_number :: "string \<Rightarrow> (nat \<times> nat) option" where
  "c_number s =
     (let n = length (takeWhile isdigit s) in if n = 0 then None else Some (0, n))"

definition c_quoted :: "char \<Rightarrow> string \<Rightarrow> (nat \<times> nat) option" where
  "c_quoted q s =
     (case s of
        [] \<Rightarrow> None
      | c # cs \<Rightarrow>
          if c \<noteq> q then None
          else (let body = takeWhile (\<lambda>x. x \<noteq> q \<and> x \<noteq> CHR 0x5C) cs in
                if drop (length body) cs \<noteq> [] \<and> hd (drop (length body) cs) = q
                then Some (0, length body + 2) else None))"

definition simple_tokenizers :: CStyleTokenizers where
  "simple_tokenizers =
     \<lparr>TokenizeCStyleIdentifier = c_identifier,
      TokenizeCStyleNumber = c_number,
      TokenizeCStyleCharacterLiteral = c_quoted (CHR 0x27),
      TokenizeCStyleString = c_quoted (CHR 0x22)\<rparr>"


section \<open>The format-match scan of the file-loaded handler\<close>

text \<open>
  The MIME pragma handler. It captures \<open>mimeType\<close> and \<open>foundCorrectType\<close> by
  reference; here it takes the flag and returns the flag after the call together with
  its return value.
\<close>

definition MIME_handler :: "string \<Rightarrow> string \<Rightarrow> bool \<Rightarrow> bool \<times> bool" where
  "MIME_handler mimeType val foundCorrectType =
     (if val = mimeType then (True, True)
      else (foundCorrectType,
            \<not> list_all isspace val \<and> \<not> ends_with val (CHR 0x0A) \<and> \<not> ends_with val (CHR 0x0D)))"

text \<open>
  The spec's reading of a handler's return value (3, Pragma Match Predicate): true is
  keep scanning, false is stop early.
\<close>

definition keep_scanning :: bool where
  "keep_scanning = True"

definition stop_scanning :: bool where
  "stop_scanning = False"

text \<open>
  Modelled from the spec: \<open>pl::Preprocessor\<close> is not among the sources. By the spec
  (4.2 and 6) a pragma line is the \<open>#pragma\<close> token, a name and the remainder of the
  line as value; the pass calls the handler of each pragma named MIME with the value,
  in order, and stops scanning the file once a handler returns false. The default
  handlers of other pragma names have no effect on the scan.
\<close>

fun split_lines :: "string \<Rightarrow> string \<Rightarrow> string list" where
  "split_lines cur [] = (if cur = [] then [] else [cur])"
| "split_lines cur (c # cs) =
     (if c = CHR 0x0A then cur # split_lines [] cs else split_lines (cur @ [c]) cs)"

definition pragma_of_line :: "string \<Rightarrow> (string \<times> string) option" where
  "pragma_of_line l =
     (let l1 = dropWhile isblank l in
      if take 7 l1 = ''#pragma'' \<and> drop 7 l1 \<noteq> [] \<and> isblank (hd (drop 7 l1)) then
        (let l2 = dropWhile isblank (drop 7 l1);
             name = takeWhile (\<lambda>c. \<not> isblank c) l2;
             val = dropWhile isblank (dropWhile (\<lambda>c. \<not> isblank c) l2)
         in if name = [] then None else Some (name, val))
      else None)"

definition pragmas_of :: "string \<Rightarrow> (string \<times> string) list" where
  "pragmas_of txt = List.map_filter pragma_of_line (split_lines [] txt)"

fun run_pragmas :: "(string \<Rightarrow> bool \<Rightarrow> bool \<times> bool) \<Rightarrow> (string \<times> string) list \<Rightarrow> bool \<Rightarrow> bool" where
  "run_pragmas h [] flag = flag"
| "run_pragmas h ((name, val) # ps) flag =
     (if name = ''MIME'' then
        (case h val flag of (flag', continue) \<Rightarrow>
           if continue then run_pragmas h ps flag' else flag')
      else run_pragmas h ps flag)"

definition preprocess :: "(string \<Rightarrow> bool \<Rightarrow> bool \<times> bool) \<Rightarrow> string \<Rightarrow> bool \<Rightarrow> bool" where
  "preprocess h txt flag = run_pragmas h (pragmas_of txt) flag"

text \<open>
  A directory entry as the scan sees it: its path, whether it is a regular file, and
  what \<open>File(path, Read)\<close> gives: \<open>None\<close> when the file is not valid (it cannot be opened
  for reading), the text of \<open>readString()\<close> otherwise.
\<close>

record DirEntry =
  entry_path :: string
  is_regular_file :: bool
  readString :: "string option"

text \<open>
  The body of the inner loop. The state of the loops is the flag \<open>foundCorrectType\<close>,
  declared once before both loops, and \<open>m_possiblePatternFiles\<close>.
\<close>

definition scan_entry :: "string \<Rightarrow> bool \<times> string list \<Rightarrow> DirEntry \<Rightarrow> bool \<times> string list" where
  "scan_entry mimeType st entry =
     (case st of (foundCorrectType, files) \<Rightarrow>
        if \<not> is_regular_file entry then (foundCorrectType, files)
        else (case readString entry of
          None \<Rightarrow> (foundCorrectType, files)
        | Some txt \<Rightarrow>
            (let found = preprocess (MIME_handler mimeType) txt foundCorrectType
             in (found, if found then files @ [entry_path entry] else files))))"

definition scan_dir :: "string \<Rightarrow> bool \<times> string list \<Rightarrow> DirEntry list \<Rightarrow> bool \<times> string list" where
  "scan_dir mimeType st dir = foldl (scan_entry mimeType) st dir"

text \<open>
  The two loops, from \<open>foundCorrectType = false\<close> and the cleared list, over the
  directories of \<open>hex::getPath(ImHexPath::Patterns)\<close>.
\<close>

definition formatMatchScan :: "string \<Rightarrow> DirEntry list list \<Rightarrow> string list" where
  "formatMatchScan mimeType dirs = snd (foldl (scan_dir mimeType) (False, []) dirs)"


section \<open>The view state and the evaluation orchestrator\<close>

datatype Level = Debug | Info | Warning | Error

type_synonym LogEntry = "Level \<times> string"

text \<open>An error marker: the line and the message of a diagnostic.\<close>

type_synonym ErrorMarker = "nat \<times> string"

datatype PatternData = PatternData (pattern_name: string) (pattern_offset: nat) (pattern_size: nat)

datatype Event = EventPatternChanged

text \<open>What \<open>View::doLater\<close> queues for the foreground.\<close>

datatype Deferred = PostPatternChanged | OpenPopup_accept_pattern

text \<open>
  What \<open>executeString\<close> leaves behind: its return value, and the error and the console
  log that \<open>getError()\<close> and \<open>getConsoleLog()\<close> read from the runtime afterwards.
\<close>

record Execution =
  exec_result :: "PatternData list option"
  exec_error :: "ErrorMarker option"
  exec_log :: "LogEntry list"

text \<open>
  A background unit is the detached thread of \<open>parsePattern\<close>: its copy of the buffer,
  its local \<open>result\<close>, and the statement it executes next.
\<close>

datatype PC = Execute | Markers | Console | Store | Finish | Done

record BackgroundUnit =
  unit_buffer :: string
  unit_pc :: PC
  unit_result :: "PatternData list option"

text \<open>
  The collaborators outside the view: the provider, the MIME detection, the pattern
  directories, the file system as \<open>fopen\<close> sees it (\<open>None\<close>: the file cannot be opened),
  and the interpreter.
\<close>

record Env =
  ProviderValid :: bool
  ProviderAvailable :: bool
  getMIMEType :: string
  Patterns :: "DirEntry list list"
  fopen :: "string \<Rightarrow> string option"
  executeString :: "string \<Rightarrow> Execution"

record View =
  m_text :: string
  m_errorMarkers :: "ErrorMarker list"
  m_console :: "LogEntry list"
  m_evaluatorRunning :: bool
  m_hasUnevaluatedChanges :: bool
  m_runAutomatically :: bool
  m_possiblePatternFiles :: "string list"
  m_selectedPatternFile :: int
  patternData :: "PatternData list"
  projectPattern :: string
  projectDirty :: bool
  runtime_error :: "ErrorMarker option"
  runtime_log :: "LogEntry list"
  posted :: "Event list"
  deferred :: "Deferred list"
  threads :: "BackgroundUnit list"

definition initial_view :: View where
  "initial_view =
     \<lparr>m_text = [], m_errorMarkers = [], m_console = [], m_evaluatorRunning = False,
      m_hasUnevaluatedChanges = False, m_runAutomatically = False,
      m_possiblePatternFiles = [], m_selectedPatternFile = 0, patternData = [],
      projectPattern = [], projectDirty = False, runtime_error = None, runtime_log = [],
      posted = [], deferred = [], threads = []\<rparr>"

subsection \<open>\<open>parsePattern\<close>, statement by statement\<close>

definition set_evaluatorRunning :: "bool \<Rightarrow> View \<Rightarrow> View" where
  "set_evaluatorRunning b s = s\<lparr>m_evaluatorRunning := b\<rparr>"

definition clearPatternData :: "View \<Rightarrow> View" where
  "clearPatternData s = s\<lparr>patternData := []\<rparr>"

definition SetErrorMarkers :: "ErrorMarker list \<Rightarrow> View \<Rightarrow> View" where
  "SetErrorMarkers ms s = s\<lparr>m_errorMarkers := ms\<rparr>"

definition console_clear :: "View \<Rightarrow> View" where
  "console_clear s = s\<lparr>m_console := []\<rparr>"

definition post :: "Event \<Rightarrow> View \<Rightarrow> View" where
  "post e s = s\<lparr>posted := posted s @ [e]\<rparr>"

definition doLater :: "Deferred \<Rightarrow> View \<Rightarrow> View" where
  "doLater d s = s\<lparr>deferred := deferred s @ [d]\<rparr>"

text \<open>\<open>std::thread([this, buffer = std::string(buffer)] {...}).detach()\<close>.\<close>

definition new_unit :: "string \<Rightarrow> BackgroundUnit" where
  "new_unit buffer = \<lparr>unit_buffer = c_str buffer, unit_pc = Execute, unit_result = None\<rparr>"

definition spawn :: "string \<Rightarrow> View \<Rightarrow> View" where
  "spawn buffer s = s\<lparr>threads := threads s @ [new_unit buffer]\<rparr>"

definition parsePattern :: "string \<Rightarrow> View \<Rightarrow> View" where
  "parsePattern buffer s =
     spawn buffer
       (post EventPatternChanged
         (console_clear
           (SetErrorMarkers []
             (clearPatternData
               (set_evaluatorRunning True s)))))"

subsection \<open>The background unit, statement by statement\<close>

definition set_pc :: "nat \<Rightarrow> PC \<Rightarrow> View \<Rightarrow> View" where
  "set_pc i p s = s\<lparr>threads := (threads s)[i := (threads s ! i)\<lparr>unit_pc := p\<rparr>]\<rparr>"

definition bg_step :: "Env \<Rightarrow> nat \<Rightarrow> View \<Rightarrow> View" where
  "bg_step env i s =
     (if length (threads s) \<le> i then s
      else
        (let u = threads s ! i in
         case unit_pc u of
           Execute \<Rightarrow>
             (let r = executeString env (unit_buffer u) in
              s\<lparr>runtime_error := exec_error r, runtime_log := exec_log r,
                threads := (threads s)[i := u\<lparr>unit_result := exec_result r, unit_pc := Markers\<rparr>]\<rparr>)
         | Markers \<Rightarrow>
             set_pc i Console
               (case runtime_error s of Some e \<Rightarrow> SetErrorMarkers [e] s | None \<Rightarrow> s)
         | Console \<Rightarrow> set_pc i Store (s\<lparr>m_console := runtime_log s\<rparr>)
         | Store \<Rightarrow>
             set_pc i Finish
               (case unit_result u of
                  Some t \<Rightarrow> doLater PostPatternChanged (s\<lparr>patternData := t\<rparr>)
                | None \<Rightarrow> s)
         | Finish \<Rightarrow> set_pc i Done (set_evaluatorRunning False s)
         | Done \<Rightarrow> s))"

subsection \<open>The foreground handlers\<close>

definition onProjectFileStore :: "View \<Rightarrow> View" where
  "onProjectFileStore s = s\<lparr>projectPattern := m_text s\<rparr>"

definition SetText :: "string \<Rightarrow> View \<Rightarrow> View" where
  "SetText t s = s\<lparr>m_text := t\<rparr>"

definition onProjectFileLoad :: "View \<Rightarrow> View" where
  "onProjectFileLoad s = (let s1 = SetText (projectPattern s) s in parsePattern (m_text s1) s1)"

definition onFileLoaded :: "Env \<Rightarrow> View \<Rightarrow> View" where
  "onFileLoaded env s =
     (if has_non_blank (m_text s) then s
      else if ProviderValid env then s
      else
        (let files = formatMatchScan (getMIMEType env) (Patterns env);
             s1 = s\<lparr>m_possiblePatternFiles := files\<rparr>
         in if files \<noteq> []
            then doLater OpenPopup_accept_pattern (s1\<lparr>m_selectedPatternFile := 0\<rparr>)
            else s1))"

text \<open>
  \<open>loadPatternFile\<close>: the buffer is the file's bytes followed by a NUL byte.
\<close>

definition loadPatternFile :: "Env \<Rightarrow> string \<Rightarrow> View \<Rightarrow> View" where
  "loadPatternFile env path s =
     (case fopen env path of
        None \<Rightarrow> s
      | Some bytes \<Rightarrow>
          (let buffer = bytes @ [CHR 0x00]
           in SetText (c_str buffer) (parsePattern buffer s)))"

text \<open>
  Background statements between foreground statements. While a handler runs on the
  foreground thread the detached threads go on: \<open>bg_steps\<close> executes the next statement
  of each unit of a list in turn, and \<open>interleaved\<close> executes a list of foreground
  statements, each one after the background statements scheduled before it.
\<close>

definition bg_steps :: "Env \<Rightarrow> nat list \<Rightarrow> View \<Rightarrow> View" where
  "bg_steps env units s = foldl (\<lambda>t i. bg_step env i t) s units"

fun interleaved :: "Env \<Rightarrow> nat list list \<Rightarrow> (View \<Rightarrow> View) list \<Rightarrow> View \<Rightarrow> View" where
  "interleaved env bgs [] s = s"
| "interleaved env bgs (f # fs) s =
     interleaved env (drop 1 bgs) fs (f (bg_steps env (concat (take 1 bgs)) s))"

text \<open>The statements of \<open>parsePattern\<close>, in the order of the source.\<close>

definition parsePattern_statements :: "string \<Rightarrow> (View \<Rightarrow> View) list" where
  "parsePattern_statements buffer =
     [set_evaluatorRunning True, clearPatternData, SetErrorMarkers [], console_clear,
      post EventPatternChanged, spawn buffer]"

text \<open>
  One frame of \<open>drawContent\<close>. The frame's inputs are what the widgets return (whether
  \<open>ImGui::Begin\<close> shows the window, the text after an edit made in the editor during
  this frame, for which \<open>IsTextChanged\<close> is then true, a click on the evaluate button
  and a click on the auto-run checkbox) and what the detached threads do meanwhile: the
  units that execute a statement before the frame reads \<open>m_evaluatorRunning\<close> for the
  button (line 243), for the spinner or the checkbox (line 246), before it looks at
  \<open>IsTextChanged\<close> (line 254) and before the auto-run check (line 259), and those that do
  so before each statement of a \<open>parsePattern\<close> that the button or the check calls.
\<close>

record Frame =
  window_begin :: bool
  edited :: "string option"
  button_clicked :: bool
  checkbox_clicked :: bool
  bg_before_button :: "nat list"
  bg_in_button :: "nat list list"
  bg_before_checkbox :: "nat list"
  bg_before_text_changed :: "nat list"
  bg_before_auto_run :: "nat list"
  bg_in_auto_run :: "nat list list"

definition Render :: "Frame \<Rightarrow> View \<Rightarrow> View" where
  "Render ui s = (case edited ui of Some t \<Rightarrow> SetText t s | None \<Rightarrow> s)"

text \<open>
  Modelled from the spec: \<open>ImGui::Disabled\<close> is not among the sources. By the spec (9,
  open question) it disables the trigger control, so that a click while the evaluator
  runs is dropped. Its argument \<open>m_evaluatorRunning\<close> is read once, at line 243.
\<close>

definition evaluate_button :: "Env \<Rightarrow> Frame \<Rightarrow> View \<Rightarrow> View" where
  "evaluate_button env ui s =
     (if \<not> m_evaluatorRunning s \<and> button_clicked ui
      then interleaved env (bg_in_button ui) (parsePattern_statements (m_text s)) s
      else s)"

definition auto_checkbox :: "Frame \<Rightarrow> View \<Rightarrow> View" where
  "auto_checkbox ui s =
     (if m_evaluatorRunning s then s
      else if checkbox_clicked ui then
        (let s1 = s\<lparr>m_runAutomatically := \<not> m_runAutomatically s\<rparr>
         in if m_runAutomatically s1 then s1\<lparr>m_hasUnevaluatedChanges := True\<rparr> else s1)
      else s)"

definition text_changed :: "Frame \<Rightarrow> View \<Rightarrow> View" where
  "text_changed ui s =
     (if edited ui \<noteq> None then
        (if m_runAutomatically s then s\<lparr>m_hasUnevaluatedChanges := True\<rparr> else s)
      else s)"

definition clear_unevaluated :: "View \<Rightarrow> View" where
  "clear_unevaluated s = s\<lparr>m_hasUnevaluatedChanges := False\<rparr>"

definition markDirty :: "View \<Rightarrow> View" where
  "markDirty s = s\<lparr>projectDirty := True\<rparr>"

definition auto_run :: "Env \<Rightarrow> Frame \<Rightarrow> View \<Rightarrow> View" where
  "auto_run env ui s =
     (if m_hasUnevaluatedChanges s \<and> \<not> m_evaluatorRunning s
      then interleaved env (bg_in_auto_run ui)
             (clear_unevaluated # markDirty # parsePattern_statements (m_text s)) s
      else s)"

text \<open>
  The states in which a drawn frame reads \<open>m_evaluatorRunning\<close> at line 243, reads it
  at line 246, looks at \<open>IsTextChanged\<close> at line 254, and makes the auto-run check at
  line 259.
\<close>

definition at_button :: "Env \<Rightarrow> Frame \<Rightarrow> View \<Rightarrow> View" where
  "at_button env ui s = bg_steps env (bg_before_button ui) (Render ui s)"

definition at_checkbox :: "Env \<Rightarrow> Frame \<Rightarrow> View \<Rightarrow> View" where
  "at_checkbox env ui s =
     bg_steps env (bg_before_checkbox ui) (evaluate_button env ui (at_button env ui s))"

definition at_text_changed :: "Env \<Rightarrow> Frame \<Rightarrow> View \<Rightarrow> View" where
  "at_text_changed env ui s =
     bg_steps env (bg_before_text_changed ui) (auto_checkbox ui (at_checkbox env ui s))"

definition at_auto_run :: "Env \<Rightarrow> Frame \<Rightarrow> View \<Rightarrow> View" where
  "at_auto_run env ui s =
     bg_steps env (bg_before_auto_run ui) (text_changed ui (at_text_changed env ui s))"

definition drawContent :: "Env \<Rightarrow> Frame \<Rightarrow> View \<Rightarrow> View" where
  "drawContent env ui s =
     (if window_begin ui then
        (if ProviderValid env \<and> ProviderAvailable env then
           auto_run env ui (at_auto_run env ui s)
         else s)
      else s)"

subsection \<open>Interleavings\<close>

text \<open>
  The handlers run on the one foreground thread, one after the other; a background
  step is the next statement of one detached thread. An interleaving is a list of such
  steps. A frame of \<open>drawContent\<close> carries the background statements that execute
  between its own statements. The other handlers are taken as one step each: the
  file-loaded and the project-store handlers share no field with the background units,
  and a load is either followed through a concrete trace or comes through the gate,
  when no unit is in flight.
\<close>

datatype Request =
    DrawContent Frame
  | ProjectFileLoad
  | ProjectFileStore
  | FileLoaded
  | LoadPatternFile string

datatype Step = Foreground Request | Background nat

fun handle :: "Env \<Rightarrow> Request \<Rightarrow> View \<Rightarrow> View" where
  "handle env (DrawContent ui) s = drawContent env ui s"
| "handle env ProjectFileLoad s = onProjectFileLoad s"
| "handle env ProjectFileStore s = onProjectFileStore s"
| "handle env FileLoaded s = onFileLoaded env s"
| "handle env (LoadPatternFile path) s = loadPatternFile env path s"

fun step :: "Env \<Rightarrow> View \<Rightarrow> Step \<Rightarrow> View" where
  "step env s (Foreground r) = handle env r s"
| "step env s (Background i) = bg_step env i s"

definition run :: "Env \<Rightarrow> View \<Rightarrow> Step list \<Rightarrow> View" where
  "run env s steps = foldl (step env) s steps"

text \<open>The evaluations in flight: the background units that have not finished.\<close>

definition in_flight :: "View \<Rightarrow> BackgroundUnit list" where
  "in_flight s = filter (\<lambda>u. unit_pc u \<noteq> Done) (threads s)"

text \<open>A unit whose result data is not all stored yet.\<close>

definition unstored :: "BackgroundUnit \<Rightarrow> bool" where
  "unstored u \<longleftrightarrow> unit_pc u \<in> {Execute, Markers, Console, Store}"

text \<open>
  A request comes through a gate when it is one of the two of \<open>drawContent\<close> (the
  button is disabled and the auto-run check fails while the evaluator runs), or when it
  arrives while no evaluation runs.
\<close>

fun gated :: "View \<Rightarrow> Step \<Rightarrow> bool" where
  "gated s (Foreground ProjectFileLoad) = (\<not> m_evaluatorRunning s)"
| "gated s (Foreground (LoadPatternFile path)) = (\<not> m_evaluatorRunning s)"
| "gated s _ = True"

fun all_gated :: "Env \<Rightarrow> View \<Rightarrow> Step list \<Rightarrow> bool" where
  "all_gated env s [] = True"
| "all_gated env s (x # xs) = (gated s x \<and> all_gated env (step env s x) xs)"

fun next_pc :: "PC \<Rightarrow> PC" where
  "next_pc Execute = Markers"
| "next_pc Markers = Console"
| "next_pc Console = Store"
| "next_pc Store = Finish"
| "next_pc Finish = Done"
| "next_pc Done = Done"

text \<open>
  Mutual exclusion on \<open>m_evaluatorRunning\<close>: at most one evaluation is in flight, and
  the flag is set while one is.
\<close>

definition exclusive :: "View \<Rightarrow> bool" where
  "exclusive s \<longleftrightarrow>
     length (in_flight s) \<le> 1 \<and> (0 < length (in_flight s) \<longrightarrow> m_evaluatorRunning s)"

text \<open>
  A step of the view is steady when it keeps the mutual exclusion, removes no unit,
  leaves a finished unit finished and, taken while the evaluator runs, adds no unit
  and neither switches auto-run nor clears the flag of unevaluated changes.
\<close>

definition steady :: "(View \<Rightarrow> View) \<Rightarrow> bool" where
  "steady f \<longleftrightarrow>
     (\<forall>t. (exclusive t \<longrightarrow> exclusive (f t)) \<and>
          length (threads t) \<le> length (threads (f t)) \<and>
          (\<forall>i. i < length (threads t) \<longrightarrow> unit_pc (threads t ! i) = Done \<longrightarrow>
               unit_pc (threads (f t) ! i) = Done) \<and>
          (m_evaluatorRunning t \<longrightarrow>
             length (threads (f t)) = length (threads t) \<and>
             m_runAutomatically (f t) = m_runAutomatically t \<and>
             (m_hasUnevaluatedChanges t \<longrightarrow> m_hasUnevaluatedChanges (f t))))"

text \<open>
  What holds of a view \<open>t\<close> reached from \<open>s\<close> as long as unit \<open>i\<close> of \<open>s\<close> has not
  finished: no unit has been added, auto-run is as it was, and a flag of unevaluated
  changes that was set is still set.
\<close>

definition held :: "nat \<Rightarrow> View \<Rightarrow> View \<Rightarrow> bool" where
  "held i s t \<longleftrightarrow>
     exclusive t \<and> i < length (threads t) \<and>
     (unit_pc (threads t ! i) \<noteq> Done \<longrightarrow>
        length (threads t) = length (threads s) \<and>
        m_runAutomatically t = m_runAutomatically s \<and>
        (m_hasUnevaluatedChanges s \<longrightarrow> m_hasUnevaluatedChanges t))"


section \<open>Example inputs\<close>

definition script_a :: DirEntry where
  "script_a =
     \<lparr>entry_path = ''patterns/a.hexpat'', is_regular_file = True,
      readString = Some (''#pragma MIME application/x-a'' @ [CHR 0x0A] @ ''u8 byte @ 0x00;'')\<rparr>"

definition script_b :: DirEntry where
  "script_b =
     \<lparr>entry_path = ''patterns/b.hexpat'', is_regular_file = True,
      readString = Some (''#pragma MIME application/x-b'' @ [CHR 0x0A] @ ''u16 word @ 0x00;'')\<rparr>"

definition locked_entry :: DirEntry where
  "locked_entry =
     \<lparr>entry_path = ''patterns/locked.hexpat'', is_regular_file = True, readString = None\<rparr>"

definition subdirectory_entry :: DirEntry where
  "subdirectory_entry =
     \<lparr>entry_path = ''patterns/includes'', is_regular_file = False, readString = None\<rparr>"

definition demo_interpreter :: "string \<Rightarrow> Execution" where
  "demo_interpreter buffer =
     (if buffer = ''u8 byte @ 0x00;''
      then \<lparr>exec_result = Some [PatternData ''byte'' 0 1], exec_error = None, exec_log = []\<rparr>
      else \<lparr>exec_result = None, exec_error = Some (1, ''parse error''),
            exec_log = [(Error, ''parse error'')]\<rparr>)"

definition demo_files :: "string \<Rightarrow> string option" where
  "demo_files path = (if path = ''byte.hexpat'' then Some ''u8 byte @ 0x00;'' else None)"

definition demo_env :: Env where
  "demo_env =
     \<lparr>ProviderValid = True, ProviderAvailable = True, getMIMEType = ''application/x-a'',
      Patterns = [[script_a, script_b]], fopen = demo_files,
      executeString = demo_interpreter\<rparr>"

text \<open>Frames during which no background unit executes a statement.\<close>

definition quiet_frame :: Frame where
  "quiet_frame =
     \<lparr>window_begin = True, edited = None, button_clicked = False, checkbox_clicked = False,
      bg_before_button = [], bg_in_button = [], bg_before_checkbox = [],
      bg_before_text_changed = [], bg_before_auto_run = [], bg_in_auto_run = []\<rparr>"

definition hidden_frame :: Frame where
  "hidden_frame = quiet_frame\<lparr>window_begin := False\<rparr>"

definition click_frame :: Frame where
  "click_frame = quiet_frame\<lparr>button_clicked := True\<rparr>"

definition edit_frame :: "string \<Rightarrow> Frame" where
  "edit_frame t = quiet_frame\<lparr>edited := Some t\<rparr>"

text \<open>
  A frame with an edit during which unit 0 executes one statement between the look at
  \<open>IsTextChanged\<close> and the auto-run check.
\<close>

definition late_frame :: "string \<Rightarrow> Frame" where
  "late_frame t = quiet_frame\<lparr>edited := Some t, bg_before_auto_run := [0]\<rparr>"

text \<open>A view with auto-run on and a change not yet evaluated, while no evaluation runs.\<close>

definition pending_view :: View where
  "pending_view = initial_view\<lparr>m_runAutomatically := True, m_hasUnevaluatedChanges := True\<rparr>"

text \<open>Views whose project holds a one-field pattern, and a pattern that does not parse.\<close>

definition byte_project :: View where
  "byte_project = initial_view\<lparr>projectPattern := ''u8 byte @ 0x00;''\<rparr>"

definition broken_project :: View where
  "broken_project = initial_view\<lparr>projectPattern := ''struct { u8 a; u8 b''\<rparr>"

text \<open>
  A view with auto-run on in which the evaluation of the one-field pattern is in flight
  and has one statement left, the one that clears \<open>m_evaluatorRunning\<close>.
\<close>

definition finishing_view :: View where
  "finishing_view =
     (run demo_env byte_project
        [Foreground ProjectFileLoad, Background 0, Background 0, Background 0, Background 0])
       \<lparr>m_runAutomatically := True\<rparr>"

text \<open>
  A view with auto-run on in which the evaluation of the one-field pattern has just
  been scheduled, and two frames with an edit each while its unit executes two
  statements.
\<close>

definition running_view :: View where
  "running_view =
     (step demo_env byte_project (Foreground ProjectFileLoad))\<lparr>m_runAutomatically := True\<rparr>"

definition edits_during_run :: "Step list" where
  "edits_during_run =
     [Foreground (DrawContent (edit_frame ''u8 a @ 0x00;'')), Background 0,
      Foreground (DrawContent (edit_frame ''u8 ab @ 0x00;'')), Background 0]"

text \<open>
  Two project-file loads in a row, and then the five statements of the first unit.
\<close>

definition overlapping_loads :: "Step list" where
  "overlapping_loads =
     [Foreground ProjectFileLoad, Foreground ProjectFileLoad,
      Background 0, Background 0, Background 0, Background 0, Background 0]"

text \<open>
  A second project-file load when the first unit is about to store its tree, and then
  that statement of the first unit.
\<close>

definition load_before_store :: "Step list" where
  "load_before_store =
     [Foreground ProjectFileLoad, Background 0, Background 0, Background 0,
      Foreground ProjectFileLoad, Background 0]"

text \<open>
  A second project-file load when the first unit is about to set its error marker, and
  then that statement of the first unit.
\<close>

definition load_before_markers :: "Step list" where
  "load_before_markers =
     [Foreground ProjectFileLoad, Background 0, Foreground ProjectFileLoad, Background 0]"


section \<open>Facts about the statements of the orchestrator\<close>

lemmas parse_defs = parsePattern_def spawn_def post_def console_clear_def SetErrorMarkers_def
  clearPatternData_def set_evaluatorRunning_def

lemmas bg_defs = bg_step_def set_pc_def SetErrorMarkers_def doLater_def
  set_evaluatorRunning_def Let_def

lemmas draw_defs = drawContent_def at_auto_run_def at_text_changed_def at_checkbox_def
  at_button_def auto_run_def text_changed_def auto_checkbox_def evaluate_button_def Render_def
  SetText_def interleaved.simps parsePattern_statements_def clear_unevaluated_def markDirty_def

lemma threads_parsePattern [simp]: "threads (parsePattern b s) = threads s @ [new_unit b]"
  by (simp add: parse_defs)

lemma running_parsePattern [simp]: "m_evaluatorRunning (parsePattern b s)"
  by (simp add: parse_defs)

lemma run_Nil [simp]: "run env s [] = s"
  by (simp add: run_def)

lemma run_Cons [simp]: "run env s (x # xs) = run env (step env s x) xs"
  by (simp add: run_def)

lemma run_snoc: "run env s (steps @ [x]) = step env (run env s steps) x"
  by (simp add: run_def)

lemma bg_steps_Nil [simp]: "bg_steps env [] s = s"
  by (simp add: bg_steps_def)

lemma bg_steps_Cons [simp]: "bg_steps env (i # units) s = bg_steps env units (bg_step env i s)"
  by (simp add: bg_steps_def)

text \<open>Without interference the statements of \<open>parsePattern\<close> make up \<open>parsePattern\<close>.\<close>

lemma interleaved_parsePattern:
  "interleaved env [] (parsePattern_statements buffer) s = parsePattern buffer s"
  by (simp add: parsePattern_statements_def parsePattern_def)

subsection \<open>Fields that a background statement does not touch\<close>

lemma bg_step_untouched [simp]:
  "m_hasUnevaluatedChanges (bg_step env i t) = m_hasUnevaluatedChanges t"
  "m_runAutomatically (bg_step env i t) = m_runAutomatically t"
  "projectDirty (bg_step env i t) = projectDirty t"
  "m_text (bg_step env i t) = m_text t"
  "posted (bg_step env i t) = posted t"
  "length (threads (bg_step env i t)) = length (threads t)"
  by (simp_all add: bg_defs split: PC.splits option.splits)

lemma bg_steps_untouched [simp]:
  "m_hasUnevaluatedChanges (bg_steps env units t) = m_hasUnevaluatedChanges t"
  "m_runAutomatically (bg_steps env units t) = m_runAutomatically t"
  "projectDirty (bg_steps env units t) = projectDirty t"
  "m_text (bg_steps env units t) = m_text t"
  "posted (bg_steps env units t) = posted t"
  "length (threads (bg_steps env units t)) = length (threads t)"
  by (induction units arbitrary: t) simp_all

lemma other_bg_step: "i \<noteq> j \<Longrightarrow> threads (bg_step env j s) ! i = threads s ! i"
  by (simp add: bg_defs split: PC.splits option.splits)

lemma own_bg_step:
  "i < length (threads s) \<Longrightarrow>
   unit_pc (threads (bg_step env i s) ! i) = next_pc (unit_pc (threads s ! i))"
  by (simp add: bg_defs split: PC.splits option.splits)

lemma bg_step_keeps_Done:
  "i < length (threads s) \<Longrightarrow> unit_pc (threads s ! i) = Done \<Longrightarrow>
   unit_pc (threads (bg_step env j s) ! i) = Done"
  by (cases "i = j") (simp_all add: own_bg_step other_bg_step)

subsection \<open>Mutual exclusion\<close>

lemma filter_update_length:
  "i < length xs \<Longrightarrow> P y = P (xs ! i) \<Longrightarrow> length (filter P (xs[i := y])) = length (filter P xs)"
proof (induction xs arbitrary: i)
  case Nil
  then show ?case by simp
next
  case (Cons x xs)
  then show ?case by (cases i) auto
qed

lemma filter_update_drop:
  "i < length xs \<Longrightarrow> P (xs ! i) \<Longrightarrow> \<not> P y \<Longrightarrow>
   Suc (length (filter P (xs[i := y]))) = length (filter P xs)"
proof (induction xs arbitrary: i)
  case Nil
  then show ?case by simp
next
  case (Cons x xs)
  then show ?case by (cases i) auto
qed

lemma in_flight_idle: "exclusive s \<Longrightarrow> \<not> m_evaluatorRunning s \<Longrightarrow> in_flight s = []"
  by (auto simp: exclusive_def)

lemma in_flight_running:
  assumes "exclusive s" and "i < length (threads s)" and "unit_pc (threads s ! i) \<noteq> Done"
  shows "m_evaluatorRunning s"
proof -
  from assms(2,3) have "threads s ! i \<in> set (in_flight s)" by (simp add: in_flight_def)
  then have "0 < length (in_flight s)" by (cases "in_flight s") auto
  with assms(1) show ?thesis by (simp add: exclusive_def)
qed

lemma exclusive_parsePattern: "in_flight s = [] \<Longrightarrow> exclusive (parsePattern b s)"
  by (simp add: exclusive_def in_flight_def new_unit_def)

lemma bg_step_running:
  "m_evaluatorRunning (bg_step env i s) =
     (if i < length (threads s) \<and> unit_pc (threads s ! i) = Finish then False
      else m_evaluatorRunning s)"
  by (simp add: bg_defs split: PC.splits option.splits)

lemma bg_step_threads:
  "i < length (threads s) \<Longrightarrow> unit_pc (threads s ! i) \<noteq> Done \<Longrightarrow>
   \<exists>u. threads (bg_step env i s) = (threads s)[i := u] \<and>
       unit_pc u = next_pc (unit_pc (threads s ! i))"
  by (auto simp: bg_defs split: PC.splits option.splits)

lemma bg_step_Done:
  "i < length (threads s) \<Longrightarrow> unit_pc (threads s ! i) = Done \<Longrightarrow> bg_step env i s = s"
  by (simp add: bg_defs)

lemma bg_step_idle: "in_flight s = [] \<Longrightarrow> bg_step env i s = s"
proof (cases "i < length (threads s)")
  case False
  then show ?thesis by (simp add: bg_step_def)
next
  case True
  assume "in_flight s = []"
  then have "\<forall>u \<in> set (threads s). unit_pc u = Done"
    by (simp add: in_flight_def filter_empty_conv)
  with True have "unit_pc (threads s ! i) = Done" by simp
  with True show ?thesis by (rule bg_step_Done)
qed

lemma bg_steps_idle: "in_flight s = [] \<Longrightarrow> bg_steps env units s = s"
  by (induction units) (simp_all add: bg_step_idle)

lemma exclusive_bg_step: "exclusive s \<Longrightarrow> exclusive (bg_step env i s)"
proof (cases "i < length (threads s)")
  case False
  assume "exclusive s"
  with False show ?thesis by (simp add: bg_step_def)
next
  case True
  assume ex: "exclusive s"
  let ?P = "\<lambda>u. unit_pc u \<noteq> Done"
  show ?thesis
  proof (cases "unit_pc (threads s ! i) = Done")
    case True
    with \<open>i < length (threads s)\<close> ex show ?thesis by (simp add: bg_step_Done)
  next
    case False
    with True obtain u where u: "threads (bg_step env i s) = (threads s)[i := u]"
      "unit_pc u = next_pc (unit_pc (threads s ! i))"
      using bg_step_threads by blast
    show ?thesis
    proof (cases "unit_pc (threads s ! i) = Finish")
      case True
      with u have "\<not> ?P u" by simp
      with \<open>i < length (threads s)\<close> False
      have "Suc (length (filter ?P ((threads s)[i := u]))) = length (filter ?P (threads s))"
        by (intro filter_update_drop) simp_all
      moreover have "length (filter ?P (threads s)) \<le> 1"
        using ex by (simp add: exclusive_def in_flight_def)
      ultimately have "length (filter ?P ((threads s)[i := u])) = 0" by arith
      with u show ?thesis by (simp add: exclusive_def in_flight_def)
    next
      case nf: False
      with False u have "?P u = ?P (threads s ! i)"
        by (cases "unit_pc (threads s ! i)") simp_all
      with \<open>i < length (threads s)\<close>
      have "length (filter ?P ((threads s)[i := u])) = length (filter ?P (threads s))"
        by (intro filter_update_length) simp_all
      with u nf ex \<open>i < length (threads s)\<close> show ?thesis
        by (simp add: exclusive_def in_flight_def bg_step_running)
    qed
  qed
qed

subsection \<open>Steady steps\<close>

lemma steadyI:
  assumes "\<And>t. exclusive t \<Longrightarrow> exclusive (f t)"
    and "\<And>t. length (threads t) \<le> length (threads (f t))"
    and "\<And>t i. i < length (threads t) \<Longrightarrow> unit_pc (threads t ! i) = Done \<Longrightarrow>
           unit_pc (threads (f t) ! i) = Done"
    and "\<And>t. m_evaluatorRunning t \<Longrightarrow> length (threads (f t)) = length (threads t)"
    and "\<And>t. m_evaluatorRunning t \<Longrightarrow> m_runAutomatically (f t) = m_runAutomatically t"
    and "\<And>t. m_evaluatorRunning t \<Longrightarrow> m_hasUnevaluatedChanges t \<Longrightarrow>
           m_hasUnevaluatedChanges (f t)"
  shows "steady f"
  using assms unfolding steady_def by blast

lemma steady_exclusive: "steady f \<Longrightarrow> exclusive t \<Longrightarrow> exclusive (f t)"
  by (simp add: steady_def)

lemma steady_length: "steady f \<Longrightarrow> length (threads t) \<le> length (threads (f t))"
  by (simp add: steady_def)

lemma steady_Done:
  "steady f \<Longrightarrow> i < length (threads t) \<Longrightarrow> unit_pc (threads t ! i) = Done \<Longrightarrow>
   unit_pc (threads (f t) ! i) = Done"
  by (simp add: steady_def)

lemma steady_running:
  "steady f \<Longrightarrow> m_evaluatorRunning t \<Longrightarrow>
   length (threads (f t)) = length (threads t) \<and>
   m_runAutomatically (f t) = m_runAutomatically t \<and>
   (m_hasUnevaluatedChanges t \<longrightarrow> m_hasUnevaluatedChanges (f t))"
  by (simp add: steady_def)

lemma steady_id: "steady (\<lambda>t. t)"
  by (rule steadyI) simp_all

lemma steady_bg_step: "steady (bg_step env i)"
  by (rule steadyI) (simp_all add: exclusive_bg_step bg_step_keeps_Done)

subsection \<open>Interleaved statements\<close>

declare interleaved.simps [simp del]

lemma interleaved_preserves:
  assumes "\<And>i t. Q t \<Longrightarrow> Q (bg_step env i t)"
    and "\<And>f t. f \<in> set fs \<Longrightarrow> Q t \<Longrightarrow> Q (f t)"
    and "Q s"
  shows "Q (interleaved env bgs fs s)"
  using assms(2,3)
proof (induction fs arbitrary: bgs s)
  case Nil
  then show ?case by (simp add: interleaved.simps)
next
  case (Cons f fs)
  have b: "Q (bg_steps env units t)" if "Q t" for units t
    using that by (induction units arbitrary: t) (simp_all add: assms(1))
  from Cons.prems have "Q (f (bg_steps env (concat (take 1 bgs)) s))"
    by (simp add: b)
  with Cons show ?case by (simp add: interleaved.simps)
qed

lemma interleaved_idle:
  assumes "\<And>f t. f \<in> set fs \<Longrightarrow> in_flight t = [] \<Longrightarrow> in_flight (f t) = []"
    and "in_flight s = []"
  shows "interleaved env bgs (fs @ gs) s = interleaved env (drop (length fs) bgs) gs (foldl (\<lambda>t f. f t) s fs)"
  using assms
proof (induction fs arbitrary: bgs s)
  case Nil
  then show ?case by simp
next
  case (Cons f fs)
  from Cons.prems have "in_flight (f s) = []" by simp
  with Cons show ?case by (simp add: interleaved.simps bg_steps_idle drop_Suc)
qed

lemma scheduling_idle:
  assumes "in_flight s = []"
  shows "interleaved env bgs (parsePattern_statements b) s = parsePattern b s"
    and "interleaved env bgs (clear_unevaluated # markDirty # parsePattern_statements b) s =
           parsePattern b (markDirty (clear_unevaluated s))"
proof -
  let ?ps = "[set_evaluatorRunning True, clearPatternData, SetErrorMarkers [], console_clear,
      post EventPatternChanged]"
  have keep: "in_flight (f t) = []"
    if "f \<in> set (clear_unevaluated # markDirty # ?ps)" "in_flight t = []" for f t
    using that
    by (auto simp: in_flight_def clear_unevaluated_def markDirty_def parse_defs)
  have 1: "interleaved env bgs (?ps @ [spawn b]) s =
      interleaved env (drop (length ?ps) bgs) [spawn b] (foldl (\<lambda>t f. f t) s ?ps)"
    by (rule interleaved_idle) (use keep assms in auto)
  have i1: "in_flight (foldl (\<lambda>t f. f t) s ?ps) = []"
    using assms by (simp add: in_flight_def parse_defs)
  from 1 i1 show "interleaved env bgs (parsePattern_statements b) s = parsePattern b s"
    by (simp add: interleaved.simps parsePattern_statements_def parsePattern_def bg_steps_idle)
  let ?qs = "clear_unevaluated # markDirty # ?ps"
  have 2: "interleaved env bgs (?qs @ [spawn b]) s =
      interleaved env (drop (length ?qs) bgs) [spawn b] (foldl (\<lambda>t f. f t) s ?qs)"
    by (rule interleaved_idle) (use keep assms in auto)
  have i2: "in_flight (foldl (\<lambda>t f. f t) s ?qs) = []"
    using assms by (simp add: in_flight_def parse_defs clear_unevaluated_def markDirty_def)
  from 2 i2
  show "interleaved env bgs (clear_unevaluated # markDirty # parsePattern_statements b) s =
      parsePattern b (markDirty (clear_unevaluated s))"
    by (simp add: interleaved.simps parsePattern_statements_def parsePattern_def bg_steps_idle)
qed

lemma scheduling_length:
  "length (threads (interleaved env bgs (parsePattern_statements b) s)) = Suc (length (threads s))"
  "length (threads (interleaved env bgs (clear_unevaluated # markDirty # parsePattern_statements b) s)) =
     Suc (length (threads s))"
  by (simp_all add: interleaved.simps parsePattern_statements_def parse_defs
      clear_unevaluated_def markDirty_def)

lemma scheduling_last:
  "last (threads (interleaved env bgs (parsePattern_statements b) s)) = new_unit b"
  "last (threads (interleaved env bgs (clear_unevaluated # markDirty # parsePattern_statements b) s)) =
     new_unit b"
  by (simp_all add: interleaved.simps parsePattern_statements_def parse_defs
      clear_unevaluated_def markDirty_def)

lemma scheduling_fields:
  "m_hasUnevaluatedChanges (interleaved env bgs (parsePattern_statements b) s) =
     m_hasUnevaluatedChanges s"
  "m_runAutomatically (interleaved env bgs (parsePattern_statements b) s) = m_runAutomatically s"
  "projectDirty (interleaved env bgs (parsePattern_statements b) s) = projectDirty s"
  "m_text (interleaved env bgs (parsePattern_statements b) s) = m_text s"
  "\<not> m_hasUnevaluatedChanges
       (interleaved env bgs (clear_unevaluated # markDirty # parsePattern_statements b) s)"
  "m_runAutomatically
       (interleaved env bgs (clear_unevaluated # markDirty # parsePattern_statements b) s) =
     m_runAutomatically s"
  "projectDirty (interleaved env bgs (clear_unevaluated # markDirty # parsePattern_statements b) s)"
  "m_text (interleaved env bgs (clear_unevaluated # markDirty # parsePattern_statements b) s) =
     m_text s"
  by (simp_all add: interleaved.simps parsePattern_statements_def parse_defs
      clear_unevaluated_def markDirty_def)

lemma scheduling_Done:
  assumes "i < length (threads s)" and "unit_pc (threads s ! i) = Done"
  shows "unit_pc (threads (interleaved env bgs (parsePattern_statements b) s) ! i) = Done"
    and "unit_pc (threads (interleaved env bgs
            (clear_unevaluated # markDirty # parsePattern_statements b) s) ! i) = Done"
proof -
  let ?Q = "\<lambda>t. i < length (threads t) \<and> unit_pc (threads t ! i) = Done"
  have bg: "?Q (bg_step env j t)" if "?Q t" for j t
    using that by (simp add: bg_step_keeps_Done)
  have st: "?Q (f t)"
    if "f \<in> set (clear_unevaluated # markDirty # parsePattern_statements b)" "?Q t" for f t
    using that
    by (auto simp: parsePattern_statements_def parse_defs clear_unevaluated_def markDirty_def
        nth_append)
  have "?Q (interleaved env bgs (parsePattern_statements b) s)"
    by (rule interleaved_preserves [where Q = ?Q]) (use bg st assms in auto)
  then show "unit_pc (threads (interleaved env bgs (parsePattern_statements b) s) ! i) = Done"
    by simp
  have "?Q (interleaved env bgs (clear_unevaluated # markDirty # parsePattern_statements b) s)"
    by (rule interleaved_preserves [where Q = ?Q]) (use bg st assms in auto)
  then show "unit_pc (threads (interleaved env bgs
            (clear_unevaluated # markDirty # parsePattern_statements b) s) ! i) = Done"
    by simp
qed

subsection \<open>The statements of a frame are steady\<close>

lemma steady_Render: "steady (Render ui)"
  by (rule steadyI)
    (simp_all add: Render_def SetText_def exclusive_def in_flight_def split: option.splits)

lemma steady_evaluate_button: "steady (evaluate_button env ui)"
proof (rule steadyI)
  fix t
  show "exclusive t \<Longrightarrow> exclusive (evaluate_button env ui t)"
    by (simp add: evaluate_button_def in_flight_idle scheduling_idle exclusive_parsePattern)
  show "length (threads t) \<le> length (threads (evaluate_button env ui t))"
    by (simp add: evaluate_button_def scheduling_length)
  show "unit_pc (threads (evaluate_button env ui t) ! i) = Done"
    if "i < length (threads t)" "unit_pc (threads t ! i) = Done" for i
    using that by (simp add: evaluate_button_def scheduling_Done)
qed (simp_all add: evaluate_button_def)

lemma exclusive_bg_steps: "exclusive s \<Longrightarrow> exclusive (bg_steps env units s)"
  by (induction units arbitrary: s) (simp_all add: exclusive_bg_step)

lemma steady_auto_checkbox: "steady (auto_checkbox ui)"
  by (rule steadyI) (auto simp: auto_checkbox_def exclusive_def in_flight_def Let_def)

lemma steady_text_changed: "steady (text_changed ui)"
  by (rule steadyI) (auto simp: text_changed_def exclusive_def in_flight_def)

lemma steady_auto_run: "steady (auto_run env ui)"
proof (rule steadyI)
  fix t
  show "exclusive t \<Longrightarrow> exclusive (auto_run env ui t)"
  proof -
    assume ex: "exclusive t"
    have "exclusive (parsePattern b (markDirty (clear_unevaluated t)))"
      if "in_flight t = []" for b
      using that
      by (intro exclusive_parsePattern) (simp add: in_flight_def markDirty_def clear_unevaluated_def)
    with ex show ?thesis
      by (simp add: auto_run_def in_flight_idle scheduling_idle)
  qed
  show "length (threads t) \<le> length (threads (auto_run env ui t))"
    by (simp add: auto_run_def scheduling_length)
  show "unit_pc (threads (auto_run env ui t) ! i) = Done"
    if "i < length (threads t)" "unit_pc (threads t ! i) = Done" for i
    using that by (simp add: auto_run_def scheduling_Done)
qed (simp_all add: auto_run_def)

lemma steady_onProjectFileStore: "steady onProjectFileStore"
  by (rule steadyI) (simp_all add: onProjectFileStore_def exclusive_def in_flight_def)

lemma steady_onFileLoaded: "steady (onFileLoaded env)"
  by (rule steadyI)
    (simp_all add: onFileLoaded_def doLater_def exclusive_def in_flight_def Let_def)

subsection \<open>As long as a unit has not finished\<close>

lemma held_steady:
  assumes "steady f" and "held i s t"
  shows "held i s (f t)"
proof -
  from assms(2) have ex: "exclusive t" and i: "i < length (threads t)"
    by (simp_all add: held_def)
  have ex': "exclusive (f t)" using assms(1) ex by (rule steady_exclusive)
  have i': "i < length (threads (f t))"
    using steady_length [OF assms(1), of t] i by simp
  have "length (threads (f t)) = length (threads s) \<and>
        m_runAutomatically (f t) = m_runAutomatically s \<and>
        (m_hasUnevaluatedChanges s \<longrightarrow> m_hasUnevaluatedChanges (f t))"
    if n: "unit_pc (threads (f t) ! i) \<noteq> Done"
  proof -
    from n have nd: "unit_pc (threads t ! i) \<noteq> Done"
      using steady_Done [OF assms(1) i] by blast
    with ex i have r: "m_evaluatorRunning t" by (rule in_flight_running)
    from nd assms(2) have "length (threads t) = length (threads s) \<and>
        m_runAutomatically t = m_runAutomatically s \<and>
        (m_hasUnevaluatedChanges s \<longrightarrow> m_hasUnevaluatedChanges t)"
      by (simp add: held_def)
    with steady_running [OF assms(1) r] show ?thesis by simp
  qed
  with ex' i' show ?thesis by (simp add: held_def)
qed

lemma held_bg_steps: "held i s t \<Longrightarrow> held i s (bg_steps env units t)"
  by (induction units arbitrary: t) (simp_all add: held_steady steady_bg_step)

lemma held_drawContent: "held i s t \<Longrightarrow> held i s (drawContent env ui t)"
  by (simp add: drawContent_def at_auto_run_def at_text_changed_def at_checkbox_def
      at_button_def held_bg_steps held_steady [OF steady_Render]
      held_steady [OF steady_evaluate_button] held_steady [OF steady_auto_checkbox]
      held_steady [OF steady_text_changed] held_steady [OF steady_auto_run])

lemma held_finished:
  assumes "exclusive t" and "i < length (threads t)" and "unit_pc (threads t ! i) = Done"
  shows "held i s t"
  using assms by (simp add: held_def)

lemma held_step:
  assumes h: "held i s t" and g: "gated t x"
  shows "held i s (step env t x)"
proof (cases x)
  case (Background j)
  with h show ?thesis by (simp add: held_steady steady_bg_step)
next
  case (Foreground r)
  from h have ex: "exclusive t" and i: "i < length (threads t)" by (simp_all add: held_def)
  have load: "held i s (f (parsePattern b (g t)))"
    if "\<not> m_evaluatorRunning t"
      and "\<And>u. threads (g u) = threads u" and "\<And>u. threads (f u) = threads u"
      and "\<And>u. m_evaluatorRunning (f u) = m_evaluatorRunning u" for f g b
  proof -
    from ex that(1) have idle: "in_flight t = []" by (rule in_flight_idle)
    then have "\<forall>u \<in> set (threads t). unit_pc u = Done"
      by (simp add: in_flight_def filter_empty_conv)
    with i have d: "unit_pc (threads t ! i) = Done" by simp
    from idle have "in_flight (g t) = []" by (simp add: in_flight_def that(2))
    then have "exclusive (parsePattern b (g t))" by (rule exclusive_parsePattern)
    then have e: "exclusive (f (parsePattern b (g t)))"
      by (simp add: exclusive_def in_flight_def that(3,4))
    from i d have "i < length (threads (f (parsePattern b (g t)))) \<and>
        unit_pc (threads (f (parsePattern b (g t))) ! i) = Done"
      by (simp add: that(2,3) nth_append)
    with e show ?thesis by (simp add: held_finished)
  qed
  show ?thesis
  proof (cases r)
    case (DrawContent ui)
    with Foreground h show ?thesis by (simp add: held_drawContent)
  next
    case ProjectFileLoad
    with Foreground g have nr: "\<not> m_evaluatorRunning t" by simp
    from load [OF nr, of "SetText (projectPattern t)" "\<lambda>u. u" "projectPattern t"]
    have "held i s (parsePattern (projectPattern t) (SetText (projectPattern t) t))"
      by (simp add: SetText_def)
    with Foreground ProjectFileLoad show ?thesis
      by (simp add: onProjectFileLoad_def Let_def SetText_def)
  next
    case ProjectFileStore
    with Foreground h show ?thesis by (simp add: held_steady steady_onProjectFileStore)
  next
    case FileLoaded
    with Foreground h show ?thesis by (simp add: held_steady steady_onFileLoaded)
  next
    case (LoadPatternFile p)
    with Foreground g have nr: "\<not> m_evaluatorRunning t" by simp
    show ?thesis
    proof (cases "fopen env p")
      case None
      with Foreground LoadPatternFile h show ?thesis by (simp add: loadPatternFile_def)
    next
      case (Some bytes)
      from load [OF nr, of "\<lambda>u. u" "SetText (c_str (bytes @ [CHR 0x00]))" "bytes @ [CHR 0x00]"]
      have "held i s (SetText (c_str (bytes @ [CHR 0x00])) (parsePattern (bytes @ [CHR 0x00]) t))"
        by (simp add: SetText_def)
      with Foreground LoadPatternFile Some show ?thesis by (simp add: loadPatternFile_def Let_def)
    qed
  qed
qed

lemma held_run: "held i s t \<Longrightarrow> all_gated env t steps \<Longrightarrow> held i s (run env t steps)"
proof (induction steps arbitrary: t)
  case Nil
  then show ?case by simp
next
  case (Cons x xs)
  then show ?case by (simp add: held_step)
qed

lemma exclusive_drawContent: "exclusive s \<Longrightarrow> exclusive (drawContent env ui s)"
  by (simp add: drawContent_def at_auto_run_def at_text_changed_def at_checkbox_def
      at_button_def exclusive_bg_steps steady_exclusive [OF steady_Render]
      steady_exclusive [OF steady_evaluate_button] steady_exclusive [OF steady_auto_checkbox]
      steady_exclusive [OF steady_text_changed] steady_exclusive [OF steady_auto_run])

lemma exclusive_step: "exclusive s \<Longrightarrow> gated s x \<Longrightarrow> exclusive (step env s x)"
proof (cases x)
  case (Background i)
  assume "exclusive s"
  with Background show ?thesis by (simp add: exclusive_bg_step)
next
  case (Foreground r)
  assume ex: "exclusive s" and g: "gated s x"
  show ?thesis
  proof (cases r)
    case (DrawContent ui)
    with Foreground ex show ?thesis by (simp add: exclusive_drawContent)
  next
    case ProjectFileLoad
    with Foreground ex g have "in_flight s = []" by (simp add: in_flight_idle)
    then have "in_flight (SetText (projectPattern s) s) = []"
      by (simp add: in_flight_def SetText_def)
    with Foreground ProjectFileLoad show ?thesis
      by (simp add: onProjectFileLoad_def Let_def exclusive_parsePattern)
  next
    case ProjectFileStore
    with Foreground ex show ?thesis
      by (simp add: steady_exclusive [OF steady_onProjectFileStore])
  next
    case FileLoaded
    with Foreground ex show ?thesis
      by (simp add: steady_exclusive [OF steady_onFileLoaded])
  next
    case (LoadPatternFile p)
    show ?thesis
    proof (cases "fopen env p")
      case None
      with Foreground LoadPatternFile ex show ?thesis by (simp add: loadPatternFile_def)
    next
      case (Some bytes)
      from Foreground LoadPatternFile ex g have "in_flight s = []" by (simp add: in_flight_idle)
      then have "exclusive (parsePattern (bytes @ [CHR 0x00]) s)" by (rule exclusive_parsePattern)
      then have "exclusive (SetText (c_str (bytes @ [CHR 0x00])) (parsePattern (bytes @ [CHR 0x00]) s))"
        by (simp add: exclusive_def in_flight_def SetText_def)
      with Foreground LoadPatternFile Some show ?thesis by (simp add: loadPatternFile_def Let_def)
    qed
  qed
qed

lemma exclusive_run: "exclusive s \<Longrightarrow> all_gated env s steps \<Longrightarrow> exclusive (run env s steps)"
proof (induction steps arbitrary: s)
  case Nil
  then show ?case by simp
next
  case (Cons x xs)
  then show ?case by (simp add: exclusive_step)
qed

lemma unstored_running:
  assumes "exclusive s" and "u \<in> set (threads s)" and "unstored u"
  shows "m_evaluatorRunning s"
proof -
  from assms(3) have "unit_pc u \<noteq> Done" by (auto simp: unstored_def)
  with assms(2) have "u \<in> set (in_flight s)" by (simp add: in_flight_def)
  then have "0 < length (in_flight s)" by (cases "in_flight s") auto
  with assms(1) show ?thesis by (simp add: exclusive_def)
qed

text \<open>While a unit has not finished, nothing is scheduled.\<close>

lemma quiet_while_unfinished:
  assumes "exclusive s" and "all_gated env s steps" and "i < length (threads s)"
    and "unit_pc (threads (run env s steps) ! i) \<noteq> Done"
  shows "length (threads (run env s steps)) = length (threads s)"
    and "m_evaluatorRunning (run env s steps)"
    and "m_runAutomatically (run env s steps) = m_runAutomatically s"
    and "m_hasUnevaluatedChanges s \<Longrightarrow> m_hasUnevaluatedChanges (run env s steps)"
proof -
  from assms(1,3) have "held i s s" by (simp add: held_def)
  from held_run [OF this assms(2)] have h: "held i s (run env s steps)" .
  with assms(4) show "length (threads (run env s steps)) = length (threads s)"
    and "m_runAutomatically (run env s steps) = m_runAutomatically s"
    and "m_hasUnevaluatedChanges s \<Longrightarrow> m_hasUnevaluatedChanges (run env s steps)"
    by (simp_all add: held_def)
  from h have "exclusive (run env s steps)" "i < length (threads (run env s steps))"
    by (simp_all add: held_def)
  with assms(4) show "m_evaluatorRunning (run env s steps)"
    by (intro in_flight_running)
qed

subsection \<open>What the statements of a frame do to the auto-run state\<close>

lemma Render_fields [simp]:
  "m_hasUnevaluatedChanges (Render ui s) = m_hasUnevaluatedChanges s"
  "m_runAutomatically (Render ui s) = m_runAutomatically s"
  "projectDirty (Render ui s) = projectDirty s"
  "threads (Render ui s) = threads s"
  by (simp_all add: Render_def SetText_def split: option.splits)

lemma evaluate_button_fields [simp]:
  "m_hasUnevaluatedChanges (evaluate_button env ui s) = m_hasUnevaluatedChanges s"
  "m_runAutomatically (evaluate_button env ui s) = m_runAutomatically s"
  "projectDirty (evaluate_button env ui s) = projectDirty s"
  "m_text (evaluate_button env ui s) = m_text s"
  "length (threads (evaluate_button env ui s)) =
     length (threads s) + (if \<not> m_evaluatorRunning s \<and> button_clicked ui then 1 else 0)"
  by (simp_all add: evaluate_button_def scheduling_fields scheduling_length)

lemma auto_checkbox_fields [simp]:
  "m_hasUnevaluatedChanges (auto_checkbox ui s) \<longleftrightarrow>
     m_hasUnevaluatedChanges s \<or>
     (checkbox_clicked ui \<and> \<not> m_evaluatorRunning s \<and> \<not> m_runAutomatically s)"
  "m_runAutomatically (auto_checkbox ui s) \<longleftrightarrow>
     (if checkbox_clicked ui \<and> \<not> m_evaluatorRunning s then \<not> m_runAutomatically s
      else m_runAutomatically s)"
  "projectDirty (auto_checkbox ui s) = projectDirty s"
  "m_text (auto_checkbox ui s) = m_text s"
  "threads (auto_checkbox ui s) = threads s"
  by (auto simp: auto_checkbox_def Let_def)

lemma text_changed_fields [simp]:
  "m_hasUnevaluatedChanges (text_changed ui s) \<longleftrightarrow>
     m_hasUnevaluatedChanges s \<or> (edited ui \<noteq> None \<and> m_runAutomatically s)"
  "m_runAutomatically (text_changed ui s) = m_runAutomatically s"
  "projectDirty (text_changed ui s) = projectDirty s"
  "m_text (text_changed ui s) = m_text s"
  "threads (text_changed ui s) = threads s"
  by (auto simp: text_changed_def)

lemma at_checkbox_fields:
  "m_hasUnevaluatedChanges (at_checkbox env ui s) = m_hasUnevaluatedChanges s"
  "m_runAutomatically (at_checkbox env ui s) = m_runAutomatically s"
  "projectDirty (at_checkbox env ui s) = projectDirty s"
  "length (threads (at_checkbox env ui s)) =
     length (threads s) +
     (if \<not> m_evaluatorRunning (at_button env ui s) \<and> button_clicked ui then 1 else 0)"
  by (simp_all add: at_checkbox_def at_button_def)

lemma frame_auto:
  "m_runAutomatically (at_text_changed env ui s) \<longleftrightarrow>
     (if checkbox_clicked ui \<and> \<not> m_evaluatorRunning (at_checkbox env ui s)
      then \<not> m_runAutomatically s else m_runAutomatically s)"
  by (simp add: at_text_changed_def at_checkbox_fields)

lemma frame_flag:
  "m_hasUnevaluatedChanges (at_auto_run env ui s) \<longleftrightarrow>
     m_hasUnevaluatedChanges s \<or>
     (checkbox_clicked ui \<and> \<not> m_evaluatorRunning (at_checkbox env ui s) \<and>
      \<not> m_runAutomatically s) \<or>
     (edited ui \<noteq> None \<and> m_runAutomatically (at_text_changed env ui s))"
proof -
  have "m_hasUnevaluatedChanges (at_auto_run env ui s) \<longleftrightarrow>
      m_hasUnevaluatedChanges (at_text_changed env ui s) \<or>
      (edited ui \<noteq> None \<and> m_runAutomatically (at_text_changed env ui s))"
    by (simp add: at_auto_run_def)
  moreover have "m_hasUnevaluatedChanges (at_text_changed env ui s) \<longleftrightarrow>
      m_hasUnevaluatedChanges s \<or>
      (checkbox_clicked ui \<and> \<not> m_evaluatorRunning (at_checkbox env ui s) \<and>
       \<not> m_runAutomatically s)"
    by (simp add: at_text_changed_def at_checkbox_fields)
  ultimately show ?thesis by blast
qed

lemma at_auto_run_fields:
  "projectDirty (at_auto_run env ui s) = projectDirty s"
  "m_text (at_auto_run env ui s) = (case edited ui of Some e \<Rightarrow> e | None \<Rightarrow> m_text s)"
  "length (threads (at_auto_run env ui s)) =
     length (threads s) +
     (if \<not> m_evaluatorRunning (at_button env ui s) \<and> button_clicked ui then 1 else 0)"
  by (simp_all add: at_auto_run_def at_text_changed_def at_checkbox_fields at_checkbox_def
      at_button_def Render_def SetText_def split: option.splits)

lemma frame_undrawn:
  "\<not> (window_begin ui \<and> ProviderValid env \<and> ProviderAvailable env) \<Longrightarrow>
   drawContent env ui s = s"
  by (auto simp: drawContent_def)

lemma frame_fire:
  assumes "window_begin ui \<and> ProviderValid env \<and> ProviderAvailable env"
    and "m_hasUnevaluatedChanges (at_auto_run env ui s) \<and>
         \<not> m_evaluatorRunning (at_auto_run env ui s)"
  shows "\<not> m_hasUnevaluatedChanges (drawContent env ui s)"
    and "projectDirty (drawContent env ui s)"
    and "length (threads (drawContent env ui s)) = Suc (length (threads (at_auto_run env ui s)))"
    and "last (threads (drawContent env ui s)) = new_unit (m_text (at_auto_run env ui s))"
  using assms
  by (simp_all add: drawContent_def auto_run_def scheduling_fields scheduling_length
      scheduling_last)

lemma frame_nofire:
  assumes "window_begin ui \<and> ProviderValid env \<and> ProviderAvailable env"
    and "\<not> (m_hasUnevaluatedChanges (at_auto_run env ui s) \<and>
            \<not> m_evaluatorRunning (at_auto_run env ui s))"
  shows "drawContent env ui s = at_auto_run env ui s"
  using assms by (auto simp: drawContent_def auto_run_def)

lemma frame_count:
  assumes "window_begin ui \<and> ProviderValid env \<and> ProviderAvailable env"
  shows "length (threads (drawContent env ui s)) =
     length (threads s) +
     (if \<not> m_evaluatorRunning (at_button env ui s) \<and> button_clicked ui then 1 else 0) +
     (if m_hasUnevaluatedChanges (at_auto_run env ui s) \<and>
         \<not> m_evaluatorRunning (at_auto_run env ui s) then 1 else 0)"
  using assms
  by (simp add: drawContent_def auto_run_def scheduling_length at_auto_run_fields)

lemma frame_quiet:
  assumes "\<not> m_hasUnevaluatedChanges s" and "\<not> button_clicked ui"
    and "\<not> checkbox_clicked ui" and "edited ui = None"
  shows "length (threads (drawContent env ui s)) = length (threads s)"
    and "\<not> m_hasUnevaluatedChanges (drawContent env ui s)"
    and "projectDirty (drawContent env ui s) = projectDirty s"
proof -
  from assms have f: "\<not> m_hasUnevaluatedChanges (at_auto_run env ui s)"
    by (simp add: frame_flag)
  then have d: "drawContent env ui s = at_auto_run env ui s \<or> drawContent env ui s = s"
    by (auto simp: drawContent_def auto_run_def)
  from assms(2) have l: "length (threads (at_auto_run env ui s)) = length (threads s)"
    by (simp add: at_auto_run_fields)
  from d l show "length (threads (drawContent env ui s)) = length (threads s)" by auto
  from d f assms(1) show "\<not> m_hasUnevaluatedChanges (drawContent env ui s)" by auto
  from d show "projectDirty (drawContent env ui s) = projectDirty s"
    by (auto simp: at_auto_run_fields)
qed


lemma frame_fire_running:
  assumes "exclusive s"
    and "window_begin ui \<and> ProviderValid env \<and> ProviderAvailable env"
    and "m_hasUnevaluatedChanges (at_auto_run env ui s) \<and>
         \<not> m_evaluatorRunning (at_auto_run env ui s)"
  shows "m_evaluatorRunning (drawContent env ui s)"
proof -
  let ?d = "drawContent env ui s"
  have ex: "exclusive ?d" using assms(1) by (rule exclusive_drawContent)
  from frame_fire(3,4) [OF assms(2,3)]
  have l: "length (threads ?d) = Suc (length (threads (at_auto_run env ui s)))"
    and n: "last (threads ?d) = new_unit (m_text (at_auto_run env ui s))" .
  from l have ne: "threads ?d \<noteq> []" by auto
  from l have i: "length (threads ?d) - 1 < length (threads ?d)" by simp
  from n ne have "unit_pc (threads ?d ! (length (threads ?d) - 1)) \<noteq> Done"
    by (simp add: last_conv_nth new_unit_def)
  with ex i show ?thesis by (rule in_flight_running)
qed


section \<open>Facts about the lexical classifier and the scan\<close>

lemma blank_is_ascii: "isblank c \<Longrightarrow> isascii c"
  unfolding isblank_def isascii_def by (elim disjE) simp_all

lemma skipped_blank: "list_all isblank (take (skip_blanks input) input)"
  unfolding skip_blanks_def takeWhile_eq_take [symmetric]
  by (auto simp: list_all_iff dest: set_takeWhileD)

lemma rest_not_blank:
  "drop (skip_blanks input) input \<noteq> [] \<Longrightarrow> \<not> isblank (hd (drop (skip_blanks input) input))"
  unfolding skip_blanks_def dropWhile_eq_drop [symmetric]
  using hd_dropWhile [of "\<lambda>c. isascii c \<and> isblank c" input] blank_is_ascii by blast

lemma classify_identifier_cases:
  "classify_identifier ident =
     (if ident \<in> set pl_keywords then (PI_Keyword, None)
      else if ident \<in> set builtInTypes then (PI_BuiltinType, Some ''Built-in type'')
      else (PI_Identifier, None))"
proof -
  have "map_of (map (\<lambda>name. (name, d)) xs) ident = (if ident \<in> set xs then Some d else None)"
    for xs :: "string list" and d :: string
    by (induction xs) auto
  then have "map_of mIdentifiers ident =
      (if ident \<in> set builtInTypes then Some ''Built-in type'' else None)"
    by (simp add: mIdentifiers_def)
  then show ?thesis by (simp add: classify_identifier_def mKeywords_def)
qed

lemmas lex_defs = simple_tokenizers_def c_identifier_def c_number_def c_quoted_def
  ident_start_def ident_char_def isalpha_def isdigit_def skip_blanks_def isascii_def isblank_def
  substring_def pl_keywords_def builtInTypes_def


lemma scan_entry_skip:
  "\<not> is_regular_file e \<or> readString e = None \<Longrightarrow> scan_entry T st e = st"
  by (auto simp: scan_entry_def split: prod.splits)

lemma scan_dir_skip:
  "\<not> is_regular_file e \<or> readString e = None \<Longrightarrow>
   scan_dir T st (es1 @ e # es2) = scan_dir T st (es1 @ es2)"
  by (simp add: scan_dir_def scan_entry_skip)

lemma scan_dir_all_skipped:
  "list_all (\<lambda>e. \<not> is_regular_file e \<or> readString e = None) es \<Longrightarrow> scan_dir T st es = st"
  unfolding scan_dir_def by (induction es arbitrary: st) (simp_all add: scan_entry_skip)


lemmas scan_defs = formatMatchScan_def scan_dir_def scan_entry_def preprocess_def pragmas_of_def
  pragma_of_line_def List.map_filter_simps isblank_def MIME_handler_def isspace_def ends_with_def

lemmas example_defs = script_a_def script_b_def locked_entry_def subdirectory_entry_def
  demo_env_def demo_files_def demo_interpreter_def quiet_frame_def hidden_frame_def
  click_frame_def edit_frame_def late_frame_def initial_view_def

text \<open>Once the flag is set, no pragma of a later file resets it.\<close>

lemma run_pragmas_stale: "run_pragmas (MIME_handler T) ps True = True"
  by (induction ps) (auto simp: MIME_handler_def)

lemma scan_entry_stale:
  "is_regular_file e \<Longrightarrow> readString e = Some txt \<Longrightarrow>
   scan_entry T (True, files) e = (True, files @ [entry_path e])"
  by (simp add: scan_entry_def preprocess_def run_pragmas_stale)

text \<open>The buffer guard of the file-loaded handler: a non-blank buffer stops it.\<close>

lemma onFileLoaded_nonblank: "has_non_blank (m_text s) \<Longrightarrow> onFileLoaded env s = s"
  by (simp add: onFileLoaded_def)


lemmas trace_defs = onProjectFileLoad_def SetText_def parse_defs bg_defs new_unit_def c_str_def
  demo_env_def demo_interpreter_def initial_view_def


section \<open>The claims\<close>

text \<open>
  C1. The claim: whatever the sequence of evaluation requests (button, auto-run tick,
  project-file load, pattern-file load), at most one evaluation runs at a time. The
  button and the auto-run tick are gated on \<open>m_evaluatorRunning\<close> (lemma
  \<open>exclusive_run\<close>), the two loads are not: two project-file loads in a row, or a
  pattern-file load after a click on the button, leave two evaluations in flight.
\<close>

theorem C1_ungated_loads_overlap:
  "length (in_flight (run demo_env initial_view
      [Foreground ProjectFileLoad, Foreground ProjectFileLoad])) = 2 \<and>
   length (in_flight (run demo_env initial_view
      [Foreground (DrawContent click_frame), Foreground (LoadPatternFile ''byte.hexpat'')])) = 2"
  by (simp add: in_flight_def onProjectFileLoad_def loadPatternFile_def drawContent_def
      at_auto_run_def at_text_changed_def at_checkbox_def at_button_def auto_run_def
      text_changed_def auto_checkbox_def evaluate_button_def Render_def SetText_def
      interleaved.simps parsePattern_statements_def example_defs new_unit_def c_str_def
      parse_defs Let_def)

text \<open>
  C2. The claim: with a first file declaring MIME type T and a second one declaring U,
  the scan for T records the first file only. The flag \<open>foundCorrectType\<close> is never
  reset between files, so the scan records both.
\<close>

theorem C2_stale_flag_records_both:
  "formatMatchScan ''application/x-a'' [[script_a, script_b]] =
     [''patterns/a.hexpat'', ''patterns/b.hexpat'']"
  by (simp add: scan_defs example_defs)

text \<open>
  C3. The claim: the scan runs only when the buffer is blank and a data source is
  loaded. The handler returns when the provider is valid and goes on when it is not:
  with a blank buffer and no valid provider the candidate list is replaced by the
  scan's result, and with a valid provider the handler changes nothing.
\<close>

theorem C3_scan_without_provider:
  "m_possiblePatternFiles
     (onFileLoaded (demo_env\<lparr>ProviderValid := False, Patterns := [[script_a]]\<rparr>)
        (initial_view\<lparr>m_possiblePatternFiles := [''stale.hexpat'']\<rparr>)) = [''patterns/a.hexpat''] \<and>
   onFileLoaded demo_env (initial_view\<lparr>m_possiblePatternFiles := [''stale.hexpat'']\<rparr>) =
     initial_view\<lparr>m_possiblePatternFiles := [''stale.hexpat'']\<rparr>"
  by (simp add: onFileLoaded_def has_non_blank_def scan_defs example_defs doLater_def Let_def)

text \<open>
  C4, as amended. On an exact match with the active content type the MIME handler
  records the file and returns true, the keep-scanning result; on a non-match it leaves
  the flag as it is and returns keep-scanning, unless the value is whitespace-only
  (the empty value included) or ends in a newline or a carriage return: then it returns
  the stop result.
\<close>

theorem C4_match_keeps_scanning:
  "MIME_handler mimeType val found =
     (if val = mimeType then (True, keep_scanning)
      else if list_all isspace val \<or> ends_with val (CHR 0x0A) \<or> ends_with val (CHR 0x0D)
           then (found, stop_scanning)
           else (found, keep_scanning))"
  by (simp add: MIME_handler_def keep_scanning_def stop_scanning_def)


text \<open>
  C4, as stated, fails: on a match the handler returns the keep-scanning result, not
  the stop result.
\<close>

theorem C4_match_counterexample:
  "MIME_handler ''text/plain'' ''text/plain'' False = (True, keep_scanning) \<and>
   keep_scanning \<noteq> stop_scanning"
  by (simp add: MIME_handler_def keep_scanning_def stop_scanning_def)

text \<open>C4 at concrete values: a match, a plain mismatch, and the four rejected shapes.\<close>

theorem C4_match_witness:
  "MIME_handler ''text/plain'' ''text/plain'' False = (True, keep_scanning) \<and>
   MIME_handler ''text/plain'' ''image/png'' False = (False, keep_scanning) \<and>
   MIME_handler ''text/plain'' ''   '' False = (False, stop_scanning) \<and>
   MIME_handler ''text/plain'' [] False = (False, stop_scanning) \<and>
   MIME_handler ''text/plain'' (''image/png'' @ [CHR 0x0D]) False = (False, stop_scanning) \<and>
   MIME_handler ''text/plain'' (''image/png'' @ [CHR 0x0A]) False = (False, stop_scanning)"
  using C4_match_keeps_scanning [of "''text/plain''" "''text/plain''" False]
    C4_match_keeps_scanning [of "''text/plain''" "''image/png''" False]
    C4_match_keeps_scanning [of "''text/plain''" "''   ''" False]
    C4_match_keeps_scanning [of "''text/plain''" "[]" False]
    C4_match_keeps_scanning [of "''text/plain''" "''image/png'' @ [CHR 0x0D]" False]
    C4_match_keeps_scanning [of "''text/plain''" "''image/png'' @ [CHR 0x0A]" False]
  by (simp add: isspace_def ends_with_def)


text \<open>
  C5. The claim: no interleaving shows \<open>m_evaluatorRunning\<close> false while result data
  of a run is not yet stored. Each unit clears the flag with its last statement, and
  along gated requests a unit with unstored data implies the flag (lemmas
  \<open>unstored_running\<close> and \<open>exclusive_run\<close>). But the project-file load is not gated:
  after two loads in a row and the five statements of the first unit, the flag is false
  while the second unit, still in flight, has not executed a statement.
\<close>

theorem C5_overlap_shows_idle_before_results:
  "\<not> m_evaluatorRunning (run demo_env byte_project overlapping_loads) \<and>
   unit_pc (threads (run demo_env byte_project overlapping_loads) ! 0) = Done \<and>
   unit_pc (threads (run demo_env byte_project overlapping_loads) ! 1) = Execute \<and>
   unstored (threads (run demo_env byte_project overlapping_loads) ! 1) \<and>
   length (in_flight (run demo_env byte_project overlapping_loads)) = 1"
  by (simp add: overlapping_loads_def byte_project_def unstored_def in_flight_def trace_defs)

text \<open>
  C6. The claim: the pattern data and the error markers are empty from the scheduling
  of an evaluation until its unit's first side effect. \<open>parsePattern\<close> clears them
  before it starts the unit, but a load is not gated: when it schedules a second
  evaluation while the first unit is about to store its tree (or its error marker),
  that statement of the first unit fills the cleared store again while the second unit
  has not executed a statement.
\<close>

theorem C6_overlap_refills_results:
  "patternData
     (run demo_env byte_project
        [Foreground ProjectFileLoad, Background 0, Background 0, Background 0,
         Foreground ProjectFileLoad]) = [] \<and>
   patternData (run demo_env byte_project load_before_store) = [PatternData ''byte'' 0 1] \<and>
   unit_pc (threads (run demo_env byte_project load_before_store) ! 1) = Execute \<and>
   m_errorMarkers
     (run demo_env broken_project [Foreground ProjectFileLoad, Background 0,
        Foreground ProjectFileLoad]) = [] \<and>
   m_errorMarkers (run demo_env broken_project load_before_markers) = [(1, ''parse error'')] \<and>
   unit_pc (threads (run demo_env broken_project load_before_markers) ! 1) = Execute"
  by (simp add: load_before_store_def load_before_markers_def byte_project_def
      broken_project_def trace_defs)

text \<open>
  C7, as amended. A frame that is not drawn (the window is not shown, or the provider is
  not valid or not available) changes nothing. In a drawn frame, whatever the
  background units do between its statements: the flag of unevaluated changes at the
  auto-run check (line 259) is the flag at the start, or set by switching auto-run on,
  or set by an edit while auto-run is on, so with auto-run on every edit sets it; when
  the check finds the flag set and the evaluator not running it clears the flag, marks
  the project dirty and schedules exactly one evaluation, of the editor's text; in any
  other case the check changes nothing; the frame schedules one evaluation for a click
  on the enabled button and one for the check, and no other, so a frame with nothing
  pending, no click and no edit schedules none. No background statement touches the
  flag, auto-run, the dirty mark or the text. And as long as one evaluation has not
  finished, along gated requests nothing is scheduled, auto-run stays as it was and a
  flag that was set stays set: the edits made meanwhile collapse into the one run that
  the first check after the end of the evaluation schedules.
\<close>

theorem C7_auto_run_follow_up:
  "(\<not> (window_begin ui \<and> ProviderValid env \<and> ProviderAvailable env) \<longrightarrow> drawContent env ui s = s) \<and>
   (m_runAutomatically (at_text_changed env ui s) \<longleftrightarrow>
      (if checkbox_clicked ui \<and> \<not> m_evaluatorRunning (at_checkbox env ui s)
       then \<not> m_runAutomatically s else m_runAutomatically s)) \<and>
   (m_hasUnevaluatedChanges (at_auto_run env ui s) \<longleftrightarrow>
      m_hasUnevaluatedChanges s \<or>
      (checkbox_clicked ui \<and> \<not> m_evaluatorRunning (at_checkbox env ui s) \<and>
       \<not> m_runAutomatically s) \<or>
      (edited ui \<noteq> None \<and> m_runAutomatically (at_text_changed env ui s))) \<and>
   (m_runAutomatically s \<and> \<not> checkbox_clicked ui \<and> edited ui \<noteq> None \<longrightarrow>
      m_hasUnevaluatedChanges (at_auto_run env ui s)) \<and>
   m_text (at_auto_run env ui s) = (case edited ui of Some e \<Rightarrow> e | None \<Rightarrow> m_text s) \<and>
   projectDirty (at_auto_run env ui s) = projectDirty s \<and>
   (window_begin ui \<and> ProviderValid env \<and> ProviderAvailable env \<and>
    m_hasUnevaluatedChanges (at_auto_run env ui s) \<and> \<not> m_evaluatorRunning (at_auto_run env ui s) \<longrightarrow>
      \<not> m_hasUnevaluatedChanges (drawContent env ui s) \<and>
      projectDirty (drawContent env ui s) \<and>
      length (threads (drawContent env ui s)) = Suc (length (threads (at_auto_run env ui s))) \<and>
      last (threads (drawContent env ui s)) = new_unit (m_text (at_auto_run env ui s))) \<and>
   (window_begin ui \<and> ProviderValid env \<and> ProviderAvailable env \<and>
    \<not> (m_hasUnevaluatedChanges (at_auto_run env ui s) \<and> \<not> m_evaluatorRunning (at_auto_run env ui s)) \<longrightarrow>
      drawContent env ui s = at_auto_run env ui s) \<and>
   (window_begin ui \<and> ProviderValid env \<and> ProviderAvailable env \<longrightarrow>
      length (threads (drawContent env ui s)) =
        length (threads s) +
        (if \<not> m_evaluatorRunning (at_button env ui s) \<and> button_clicked ui then 1 else 0) +
        (if m_hasUnevaluatedChanges (at_auto_run env ui s) \<and> \<not> m_evaluatorRunning (at_auto_run env ui s)
         then 1 else 0)) \<and>
   (\<not> m_hasUnevaluatedChanges s \<and> \<not> button_clicked ui \<and> \<not> checkbox_clicked ui \<and>
    edited ui = None \<longrightarrow>
      length (threads (drawContent env ui s)) = length (threads s) \<and>
      \<not> m_hasUnevaluatedChanges (drawContent env ui s) \<and>
      projectDirty (drawContent env ui s) = projectDirty s) \<and>
   m_hasUnevaluatedChanges (bg_step env j t) = m_hasUnevaluatedChanges t \<and>
   m_runAutomatically (bg_step env j t) = m_runAutomatically t \<and>
   projectDirty (bg_step env j t) = projectDirty t \<and>
   m_text (bg_step env j t) = m_text t \<and>
   (exclusive s \<longrightarrow> exclusive (drawContent env ui s)) \<and>
   (exclusive s \<and> window_begin ui \<and> ProviderValid env \<and> ProviderAvailable env \<and>
    m_hasUnevaluatedChanges (at_auto_run env ui s) \<and> \<not> m_evaluatorRunning (at_auto_run env ui s) \<longrightarrow>
      m_evaluatorRunning (drawContent env ui s)) \<and>
   (exclusive s \<and> all_gated env s steps \<and> k < length (threads s) \<and>
    unit_pc (threads (run env s steps) ! k) \<noteq> Done \<longrightarrow>
      length (threads (run env s steps)) = length (threads s) \<and>
      m_evaluatorRunning (run env s steps) \<and>
      m_runAutomatically (run env s steps) = m_runAutomatically s \<and>
      (m_hasUnevaluatedChanges s \<longrightarrow> m_hasUnevaluatedChanges (run env s steps)))"
proof -
  have c_undrawn: "(\<not> (window_begin ui \<and> ProviderValid env \<and> ProviderAvailable env) \<longrightarrow> drawContent env ui s = s)"
    using frame_undrawn by blast
  have c_auto: "(m_runAutomatically (at_text_changed env ui s) \<longleftrightarrow>
      (if checkbox_clicked ui \<and> \<not> m_evaluatorRunning (at_checkbox env ui s)
       then \<not> m_runAutomatically s else m_runAutomatically s))"
    by (rule frame_auto)
  have c_flag: "(m_hasUnevaluatedChanges (at_auto_run env ui s) \<longleftrightarrow>
      m_hasUnevaluatedChanges s \<or>
      (checkbox_clicked ui \<and> \<not> m_evaluatorRunning (at_checkbox env ui s) \<and>
       \<not> m_runAutomatically s) \<or>
      (edited ui \<noteq> None \<and> m_runAutomatically (at_text_changed env ui s)))"
    by (rule frame_flag)
  have c_edit: "(m_runAutomatically s \<and> \<not> checkbox_clicked ui \<and> edited ui \<noteq> None \<longrightarrow>
      m_hasUnevaluatedChanges (at_auto_run env ui s))"
    using frame_flag [of env ui s] frame_auto [of env ui s] by auto
  have c_text: "m_text (at_auto_run env ui s) = (case edited ui of Some e \<Rightarrow> e | None \<Rightarrow> m_text s)"
    by (rule at_auto_run_fields)
  have c_dirty: "projectDirty (at_auto_run env ui s) = projectDirty s"
    by (rule at_auto_run_fields)
  have c_fire: "(window_begin ui \<and> ProviderValid env \<and> ProviderAvailable env \<and>
    m_hasUnevaluatedChanges (at_auto_run env ui s) \<and> \<not> m_evaluatorRunning (at_auto_run env ui s) \<longrightarrow>
      \<not> m_hasUnevaluatedChanges (drawContent env ui s) \<and>
      projectDirty (drawContent env ui s) \<and>
      length (threads (drawContent env ui s)) = Suc (length (threads (at_auto_run env ui s))) \<and>
      last (threads (drawContent env ui s)) = new_unit (m_text (at_auto_run env ui s)))"
    using frame_fire [of ui env s] by blast
  have c_nofire: "(window_begin ui \<and> ProviderValid env \<and> ProviderAvailable env \<and>
    \<not> (m_hasUnevaluatedChanges (at_auto_run env ui s) \<and> \<not> m_evaluatorRunning (at_auto_run env ui s)) \<longrightarrow>
      drawContent env ui s = at_auto_run env ui s)"
    using frame_nofire [of ui env s] by blast
  have c_count: "(window_begin ui \<and> ProviderValid env \<and> ProviderAvailable env \<longrightarrow>
      length (threads (drawContent env ui s)) =
        length (threads s) +
        (if \<not> m_evaluatorRunning (at_button env ui s) \<and> button_clicked ui then 1 else 0) +
        (if m_hasUnevaluatedChanges (at_auto_run env ui s) \<and> \<not> m_evaluatorRunning (at_auto_run env ui s)
         then 1 else 0))"
    using frame_count [of ui env s] by blast
  have c_quiet: "(\<not> m_hasUnevaluatedChanges s \<and> \<not> button_clicked ui \<and> \<not> checkbox_clicked ui \<and>
    edited ui = None \<longrightarrow>
      length (threads (drawContent env ui s)) = length (threads s) \<and>
      \<not> m_hasUnevaluatedChanges (drawContent env ui s) \<and>
      projectDirty (drawContent env ui s) = projectDirty s)"
    using frame_quiet [of s ui env] by blast
  have c_bg: "m_hasUnevaluatedChanges (bg_step env j t) = m_hasUnevaluatedChanges t \<and>
   m_runAutomatically (bg_step env j t) = m_runAutomatically t \<and>
   projectDirty (bg_step env j t) = projectDirty t \<and>
   m_text (bg_step env j t) = m_text t"
    by simp
  have c_excl: "(exclusive s \<longrightarrow> exclusive (drawContent env ui s))"
    using exclusive_drawContent by blast
  have c_runs: "(exclusive s \<and> window_begin ui \<and> ProviderValid env \<and> ProviderAvailable env \<and>
    m_hasUnevaluatedChanges (at_auto_run env ui s) \<and> \<not> m_evaluatorRunning (at_auto_run env ui s) \<longrightarrow>
      m_evaluatorRunning (drawContent env ui s))"
    using frame_fire_running [of s ui env] by blast
  have c_collapse: "(exclusive s \<and> all_gated env s steps \<and> k < length (threads s) \<and>
    unit_pc (threads (run env s steps) ! k) \<noteq> Done \<longrightarrow>
      length (threads (run env s steps)) = length (threads s) \<and>
      m_evaluatorRunning (run env s steps) \<and>
      m_runAutomatically (run env s steps) = m_runAutomatically s \<and>
      (m_hasUnevaluatedChanges s \<longrightarrow> m_hasUnevaluatedChanges (run env s steps)))"
    using quiet_while_unfinished [of s env steps k] by blast
  from c_undrawn c_auto c_flag c_edit c_text c_dirty c_fire c_nofire c_count c_quiet c_bg c_excl c_runs c_collapse show ?thesis
    by (elim conjE) (intro conjI; assumption)
qed

text \<open>
  C7, as stated, fails on a frame with the flag set and the evaluator not running:
  when the window is not shown, or the provider is not valid, the frame changes
  nothing; and when the evaluate button is clicked in that frame, the click schedules
  the run, the flag stays set and the project is not marked dirty.
\<close>

theorem C7_tick_counterexample:
  "m_hasUnevaluatedChanges pending_view \<and> \<not> m_evaluatorRunning pending_view \<and>
   drawContent demo_env hidden_frame pending_view = pending_view \<and>
   drawContent (demo_env\<lparr>ProviderValid := False\<rparr>) quiet_frame pending_view = pending_view \<and>
   m_hasUnevaluatedChanges (drawContent demo_env click_frame pending_view) \<and>
   \<not> projectDirty (drawContent demo_env click_frame pending_view)"
  by (simp add: pending_view_def draw_defs parse_defs example_defs)

text \<open>
  C7 at concrete frames: a quiet frame on the pending view schedules the one follow-up
  run; a frame with an edit during which the running unit executes its last statement
  before the check schedules the follow-up run in that same frame; and two frames with
  an edit each, drawn while the unit has not finished, schedule nothing.
\<close>

theorem C7_auto_run_follow_up_witness:
  "window_begin quiet_frame \<and> ProviderValid demo_env \<and> ProviderAvailable demo_env \<and>
   m_hasUnevaluatedChanges pending_view \<and> \<not> m_evaluatorRunning pending_view \<and>
   \<not> m_hasUnevaluatedChanges (drawContent demo_env quiet_frame pending_view) \<and>
   projectDirty (drawContent demo_env quiet_frame pending_view) \<and>
   length (threads (drawContent demo_env quiet_frame pending_view)) = 1 \<and>
   m_evaluatorRunning finishing_view \<and>
   \<not> m_evaluatorRunning (at_auto_run demo_env (late_frame ''u16 w @ 0x00;'') finishing_view) \<and>
   length (threads (drawContent demo_env (late_frame ''u16 w @ 0x00;'') finishing_view)) = 2 \<and>
   exclusive running_view \<and> all_gated demo_env running_view edits_during_run \<and>
   unit_pc (threads (run demo_env running_view edits_during_run) ! 0) \<noteq> Done \<and>
   length (threads (run demo_env running_view edits_during_run)) = 1 \<and>
   m_evaluatorRunning (run demo_env running_view edits_during_run) \<and>
   \<not> window_begin hidden_frame \<and>
   drawContent demo_env hidden_frame running_view = running_view \<and>
   \<not> m_hasUnevaluatedChanges initial_view \<and> \<not> button_clicked quiet_frame \<and>
   \<not> checkbox_clicked quiet_frame \<and> edited quiet_frame = None \<and>
   length (threads (drawContent demo_env quiet_frame initial_view)) = 0 \<and>
   \<not> m_hasUnevaluatedChanges (drawContent demo_env quiet_frame initial_view) \<and>
   m_runAutomatically running_view \<and> edited (edit_frame ''u8 a @ 0x00;'') \<noteq> None \<and>
   m_hasUnevaluatedChanges (at_auto_run demo_env (edit_frame ''u8 a @ 0x00;'') running_view) \<and>
   m_evaluatorRunning (at_auto_run demo_env (edit_frame ''u8 a @ 0x00;'') running_view) \<and>
   drawContent demo_env (edit_frame ''u8 a @ 0x00;'') running_view =
     at_auto_run demo_env (edit_frame ''u8 a @ 0x00;'') running_view \<and>
   exclusive pending_view \<and>
   exclusive (drawContent demo_env quiet_frame pending_view) \<and>
   m_evaluatorRunning (drawContent demo_env quiet_frame pending_view)"
proof -
  have d: "window_begin quiet_frame \<and> ProviderValid demo_env \<and> ProviderAvailable demo_env"
    by (simp add: quiet_frame_def demo_env_def)
  have p: "m_hasUnevaluatedChanges pending_view \<and> \<not> m_evaluatorRunning pending_view"
    by (simp add: pending_view_def initial_view_def)
  have a: "at_auto_run demo_env quiet_frame pending_view = pending_view"
    by (simp add: at_auto_run_def at_text_changed_def at_checkbox_def at_button_def
        text_changed_def auto_checkbox_def evaluate_button_def Render_def quiet_frame_def
        pending_view_def initial_view_def)
  have l: "length (threads pending_view) = 0"
    by (simp add: pending_view_def initial_view_def)
  note t1 = C7_auto_run_follow_up [where env = demo_env and ui = quiet_frame and s = pending_view]
  from t1 d p a l have 1: "\<not> m_hasUnevaluatedChanges (drawContent demo_env quiet_frame pending_view) \<and>
      projectDirty (drawContent demo_env quiet_frame pending_view) \<and>
      length (threads (drawContent demo_env quiet_frame pending_view)) = 1"
    by simp
  have f: "m_evaluatorRunning finishing_view \<and> length (threads finishing_view) = 1 \<and>
      m_runAutomatically finishing_view \<and> \<not> m_hasUnevaluatedChanges finishing_view \<and>
      unit_pc (threads finishing_view ! 0) = Finish"
    by (simp add: finishing_view_def byte_project_def trace_defs)
  have d2: "window_begin (late_frame ''u16 w @ 0x00;'') \<and>
      \<not> checkbox_clicked (late_frame ''u16 w @ 0x00;'') \<and>
      \<not> button_clicked (late_frame ''u16 w @ 0x00;'') \<and>
      edited (late_frame ''u16 w @ 0x00;'') \<noteq> None"
    by (simp add: late_frame_def quiet_frame_def)
  have r2: "\<not> m_evaluatorRunning
      (at_auto_run demo_env (late_frame ''u16 w @ 0x00;'') finishing_view)"
    by (simp add: finishing_view_def byte_project_def late_frame_def quiet_frame_def
        at_auto_run_def at_text_changed_def at_checkbox_def at_button_def text_changed_def
        auto_checkbox_def evaluate_button_def Render_def trace_defs)
  note t2 = C7_auto_run_follow_up [where env = demo_env and ui = "late_frame ''u16 w @ 0x00;''"
      and s = finishing_view]
  from t2 d d2 f r2
  have 2: "length (threads (drawContent demo_env (late_frame ''u16 w @ 0x00;'') finishing_view)) = 2"
    by simp
  have e: "exclusive running_view"
    by (simp add: running_view_def byte_project_def exclusive_def in_flight_def trace_defs)
  have g: "all_gated demo_env running_view edits_during_run"
    by (simp add: edits_during_run_def)
  have l3: "length (threads running_view) = 1"
    by (simp add: running_view_def byte_project_def trace_defs)
  have u: "unit_pc (threads (run demo_env running_view edits_during_run) ! 0) \<noteq> Done"
    by (simp add: edits_during_run_def running_view_def byte_project_def edit_frame_def
        quiet_frame_def draw_defs trace_defs)
  note t3 = C7_auto_run_follow_up [where env = demo_env and s = running_view
      and steps = edits_during_run and k = 0]
  from t3 e g l3 u have 3: "length (threads (run demo_env running_view edits_during_run)) = 1 \<and>
      m_evaluatorRunning (run demo_env running_view edits_during_run)"
    by simp
  have h: "\<not> window_begin hidden_frame"
    by (simp add: hidden_frame_def quiet_frame_def)
  from C7_auto_run_follow_up [where env = demo_env and ui = hidden_frame and s = running_view] h
  have 4: "drawContent demo_env hidden_frame running_view = running_view"
    by simp
  have q: "\<not> m_hasUnevaluatedChanges initial_view \<and> \<not> button_clicked quiet_frame \<and>
      \<not> checkbox_clicked quiet_frame \<and> edited quiet_frame = None \<and>
      length (threads initial_view) = 0"
    by (simp add: initial_view_def quiet_frame_def)
  from C7_auto_run_follow_up [where env = demo_env and ui = quiet_frame and s = initial_view] q
  have 5: "length (threads (drawContent demo_env quiet_frame initial_view)) = 0 \<and>
      \<not> m_hasUnevaluatedChanges (drawContent demo_env quiet_frame initial_view)"
    by simp
  have m: "m_runAutomatically running_view \<and> edited (edit_frame ''u8 a @ 0x00;'') \<noteq> None \<and>
      \<not> checkbox_clicked (edit_frame ''u8 a @ 0x00;'') \<and>
      window_begin (edit_frame ''u8 a @ 0x00;'')"
    by (simp add: running_view_def edit_frame_def quiet_frame_def)
  have r6: "m_evaluatorRunning (at_auto_run demo_env (edit_frame ''u8 a @ 0x00;'') running_view)"
    by (simp add: running_view_def byte_project_def edit_frame_def quiet_frame_def
        at_auto_run_def at_text_changed_def at_checkbox_def at_button_def text_changed_def
        auto_checkbox_def evaluate_button_def Render_def trace_defs)
  note t6 = C7_auto_run_follow_up [where env = demo_env and ui = "edit_frame ''u8 a @ 0x00;''"
      and s = running_view]
  from t6 m have 6:
    "m_hasUnevaluatedChanges (at_auto_run demo_env (edit_frame ''u8 a @ 0x00;'') running_view)"
    by simp
  from t6 m d r6 have 7: "drawContent demo_env (edit_frame ''u8 a @ 0x00;'') running_view =
      at_auto_run demo_env (edit_frame ''u8 a @ 0x00;'') running_view"
    by simp
  have x: "exclusive pending_view"
    by (simp add: pending_view_def initial_view_def exclusive_def in_flight_def)
  from t1 x have 8: "exclusive (drawContent demo_env quiet_frame pending_view)"
    by simp
  from t1 x d p a have 9: "m_evaluatorRunning (drawContent demo_env quiet_frame pending_view)"
    by simp
  from d p 1 f r2 2 e g u 3 h 4 q 5 m 6 r6 7 x 8 9 show ?thesis by simp
qed

text \<open>
  C8. The classifier skips the leading blanks (space and tab), so that the rest does
  not start with one. An empty rest is a zero-length Default token at the end of the
  input. Otherwise the first tokenizer that matches decides: an identifier is a Keyword
  when it is in the keyword table, else a BuiltinType with the description
  "Built-in type" when it is in the table of built-in types, else an Identifier; then
  number, character literal and string literal; and when none matches, the
  classification fails.
\<close>

theorem C8_classifier:
  "(let n = skip_blanks input; rest = drop n input;
        ident = substring input (n + b) (n + e);
        ti = TokenizeCStyleIdentifier T rest; tn = TokenizeCStyleNumber T rest;
        tc = TokenizeCStyleCharacterLiteral T rest; ts = TokenizeCStyleString T rest
    in
     list_all isblank (take n input) \<and>
     (rest \<noteq> [] \<longrightarrow> \<not> isblank (hd rest)) \<and>
     (rest = [] \<longrightarrow>
        classify T input =
          Some \<lparr>span_begin = length input, span_end = length input, category = PI_Default,
                decl = None\<rparr>) \<and>
     (rest \<noteq> [] \<and> ti = Some (b, e) \<longrightarrow>
        classify T input =
          Some \<lparr>span_begin = n + b, span_end = n + e,
                category =
                  (if ident \<in> set pl_keywords then PI_Keyword
                   else if ident \<in> set builtInTypes then PI_BuiltinType
                   else PI_Identifier),
                decl =
                  (if ident \<notin> set pl_keywords \<and> ident \<in> set builtInTypes
                   then Some ''Built-in type'' else None)\<rparr>) \<and>
     (rest \<noteq> [] \<and> ti = None \<and> tn = Some (b, e) \<longrightarrow>
        classify T input =
          Some \<lparr>span_begin = n + b, span_end = n + e, category = PI_Number, decl = None\<rparr>) \<and>
     (rest \<noteq> [] \<and> ti = None \<and> tn = None \<and> tc = Some (b, e) \<longrightarrow>
        classify T input =
          Some \<lparr>span_begin = n + b, span_end = n + e, category = PI_CharLiteral, decl = None\<rparr>) \<and>
     (rest \<noteq> [] \<and> ti = None \<and> tn = None \<and> tc = None \<and> ts = Some (b, e) \<longrightarrow>
        classify T input =
          Some \<lparr>span_begin = n + b, span_end = n + e, category = PI_String, decl = None\<rparr>) \<and>
     (rest \<noteq> [] \<and> ti = None \<and> tn = None \<and> tc = None \<and> ts = None \<longrightarrow>
        classify T input = None))"
  using skipped_blank [of input] rest_not_blank [of input]
  by (simp add: Let_def classify_def mTokenize_def classify_identifier_cases)



text \<open>C8 on concrete inputs, one for each outcome.\<close>

theorem C8_classifier_witness:
  "drop (skip_blanks ''  struct x'') ''  struct x'' \<noteq> [] \<and>
   TokenizeCStyleIdentifier simple_tokenizers (drop (skip_blanks ''  struct x'') ''  struct x'') =
     Some (0, 6) \<and>
   classify simple_tokenizers ''  struct x'' =
     Some \<lparr>span_begin = 2, span_end = 8, category = PI_Keyword, decl = None\<rparr> \<and>
   classify simple_tokenizers ''u32 a'' =
     Some \<lparr>span_begin = 0, span_end = 3, category = PI_BuiltinType,
           decl = Some ''Built-in type''\<rparr> \<and>
   classify simple_tokenizers ''byte @'' =
     Some \<lparr>span_begin = 0, span_end = 4, category = PI_Identifier, decl = None\<rparr> \<and>
   classify simple_tokenizers ''42;'' =
     Some \<lparr>span_begin = 0, span_end = 2, category = PI_Number, decl = None\<rparr> \<and>
   classify simple_tokenizers [CHR 0x27, CHR ''a'', CHR 0x27] =
     Some \<lparr>span_begin = 0, span_end = 3, category = PI_CharLiteral, decl = None\<rparr> \<and>
   classify simple_tokenizers [CHR 0x22, CHR ''a'', CHR ''b'', CHR 0x22] =
     Some \<lparr>span_begin = 0, span_end = 4, category = PI_String, decl = None\<rparr> \<and>
   classify simple_tokenizers ''@ 0'' = None \<and>
   classify simple_tokenizers ''   '' =
     Some \<lparr>span_begin = 3, span_end = 3, category = PI_Default, decl = None\<rparr>"
proof -
  have n: "skip_blanks ''  struct x'' = 2"
    by (simp add: skip_blanks_def isascii_def isblank_def)
  have t: "TokenizeCStyleIdentifier simple_tokenizers ''struct x'' = Some (0, 6)"
    by (simp add: simple_tokenizers_def c_identifier_def ident_start_def ident_char_def
        isalpha_def isdigit_def)
  have k: "''struct'' \<in> set pl_keywords"
    by (simp add: pl_keywords_def)
  have 1: "classify simple_tokenizers ''  struct x'' =
     Some \<lparr>span_begin = 2, span_end = 8, category = PI_Keyword, decl = None\<rparr>"
    using C8_classifier [of "''  struct x''" 0 6 simple_tokenizers]
    by (simp add: Let_def n t k substring_def)
  have 2: "classify simple_tokenizers ''u32 a'' =
     Some \<lparr>span_begin = 0, span_end = 3, category = PI_BuiltinType,
           decl = Some ''Built-in type''\<rparr>"
    by (simp add: classify_def mTokenize_def classify_identifier_cases lex_defs)
  have 3: "classify simple_tokenizers ''byte @'' =
     Some \<lparr>span_begin = 0, span_end = 4, category = PI_Identifier, decl = None\<rparr>"
    by (simp add: classify_def mTokenize_def classify_identifier_cases lex_defs)
  have 4: "classify simple_tokenizers ''42;'' =
     Some \<lparr>span_begin = 0, span_end = 2, category = PI_Number, decl = None\<rparr>"
    by (simp add: classify_def mTokenize_def lex_defs)
  have 5: "classify simple_tokenizers [CHR 0x27, CHR ''a'', CHR 0x27] =
     Some \<lparr>span_begin = 0, span_end = 3, category = PI_CharLiteral, decl = None\<rparr>"
    by (simp add: classify_def mTokenize_def lex_defs)
  have 6: "classify simple_tokenizers [CHR 0x22, CHR ''a'', CHR ''b'', CHR 0x22] =
     Some \<lparr>span_begin = 0, span_end = 4, category = PI_String, decl = None\<rparr>"
    by (simp add: classify_def mTokenize_def lex_defs)
  have 7: "classify simple_tokenizers ''@ 0'' = None"
    by (simp add: classify_def mTokenize_def lex_defs)
  have 8: "classify simple_tokenizers ''   '' =
     Some \<lparr>span_begin = 3, span_end = 3, category = PI_Default, decl = None\<rparr>"
    by (simp add: classify_def mTokenize_def lex_defs)
  from n t 1 2 3 4 5 6 7 8 show ?thesis by simp
qed


text \<open>
  C9. An entry that is not a regular file, or that cannot be opened for reading, is
  skipped: the scan's result is the one without the entry, whatever comes before and
  after it, in its directory and in the others. A directory that holds only such an
  entry, an empty directory and an empty list of directories give the empty result.
\<close>

theorem C9_skipped_entries:
  assumes "\<not> is_regular_file e \<or> readString e = None"
  shows "formatMatchScan T (ds1 @ (es1 @ e # es2) # ds2) =
           formatMatchScan T (ds1 @ (es1 @ es2) # ds2) \<and>
         formatMatchScan T [[e]] = [] \<and>
         formatMatchScan T [[]] = [] \<and>
         formatMatchScan T [] = []"
  using assms by (simp add: formatMatchScan_def scan_dir_skip) (simp add: scan_dir_def scan_entry_skip)

text \<open>
  C9 on a directory with an unreadable entry and a script of another type, and on one
  with a matching script and a subdirectory.
\<close>

theorem C9_skipped_entries_witness:
  "readString locked_entry = None \<and> \<not> is_regular_file subdirectory_entry \<and>
   formatMatchScan ''application/x-a'' [[locked_entry, script_b]] = [] \<and>
   formatMatchScan ''application/x-a'' [[script_a, subdirectory_entry]] = [''patterns/a.hexpat'']"
proof -
  have l: "readString locked_entry = None"
    by (simp add: locked_entry_def)
  have d: "\<not> is_regular_file subdirectory_entry"
    by (simp add: subdirectory_entry_def)
  have b: "formatMatchScan ''application/x-a'' [[script_b]] = []"
    by (simp add: scan_defs script_b_def)
  have a: "formatMatchScan ''application/x-a'' [[script_a]] = [''patterns/a.hexpat'']"
    by (simp add: scan_defs script_a_def)
  from C9_skipped_entries [of locked_entry "''application/x-a''" "[]" "[]" "[script_b]" "[]"] l b
  have 1: "formatMatchScan ''application/x-a'' [[locked_entry, script_b]] = []" by simp
  from C9_skipped_entries [of subdirectory_entry "''application/x-a''" "[]" "[script_a]" "[]" "[]"] d a
  have 2: "formatMatchScan ''application/x-a'' [[script_a, subdirectory_entry]] =
      [''patterns/a.hexpat'']"
    by simp
  from l d 1 2 show ?thesis by simp
qed

text \<open>
  C10. When the pattern file cannot be opened, \<open>loadPatternFile\<close> returns the view as
  it was: the editor text, the background units, the pattern data, the console and the
  error markers are unchanged.
\<close>

theorem C10_unopenable_file_is_noop:
  assumes "fopen env path = None"
  shows "loadPatternFile env path s = s"
  using assms by (simp add: loadPatternFile_def)


text \<open>C10 on a path that the file system does not have.\<close>

theorem C10_unopenable_file_witness:
  "fopen demo_env ''missing.hexpat'' = None \<and>
   loadPatternFile demo_env ''missing.hexpat'' initial_view = initial_view"
proof -
  have h: "fopen demo_env ''missing.hexpat'' = None"
    by (simp add: demo_env_def demo_files_def)
  from C10_unopenable_file_is_noop [OF h, of initial_view] h show ?thesis by simp
qed

end
